theory Spec2Isabelle
  imports Complex_Main "HOL-Library.Log_Nat"
begin

section \<open>Python numbers\<close>

text \<open>
  A price or a volume is a Python number: an int (unbounded) or a float (an IEEE 754
  double). A finite double is the rational it denotes (the type does not single out the
  rationals that are doubles; every result of an operation is one); the two zeros are
  one value (Python compares them equal, and dividing by either raises). Comparisons between
  numbers are exact, and every comparison with a NaN is false. Arithmetic on floats
  rounds to the nearest double, ties to even, and overflows to an infinity; converting
  an int that is too large for a double raises \<^verbatim>\<open>OverflowError\<close>.
\<close>

datatype fl = Finite rat | PosInf | NegInf | NaN

datatype pynum = PyInt int | PyFloat fl

type_synonym price = pynum
type_synonym datetime = int

datatype error =
    Exception string
  | AssertionError string
  | ZeroDivisionError
  | OverflowError

subsection \<open>Comparison\<close>

fun fl_lt :: "fl \<Rightarrow> fl \<Rightarrow> bool" where
  "fl_lt NaN y = False"
| "fl_lt x NaN = False"
| "fl_lt (Finite a) (Finite b) = (a < b)"
| "fl_lt x NegInf = False"
| "fl_lt PosInf y = False"
| "fl_lt x y = True"

fun fl_le :: "fl \<Rightarrow> fl \<Rightarrow> bool" where
  "fl_le NaN y = False"
| "fl_le x NaN = False"
| "fl_le (Finite a) (Finite b) = (a \<le> b)"
| "fl_le NegInf y = True"
| "fl_le x PosInf = True"
| "fl_le x y = False"

text \<open>The value a number is compared by: an int is compared exactly, not after rounding.\<close>

fun exact :: "pynum \<Rightarrow> fl" where
  "exact (PyInt i) = Finite (of_int i)"
| "exact (PyFloat f) = f"

definition py_lt :: "pynum \<Rightarrow> pynum \<Rightarrow> bool" where
  "py_lt x y = fl_lt (exact x) (exact y)"

definition py_gt :: "pynum \<Rightarrow> pynum \<Rightarrow> bool" where
  "py_gt x y = fl_lt (exact y) (exact x)"

definition py_le :: "pynum \<Rightarrow> pynum \<Rightarrow> bool" where
  "py_le x y = fl_le (exact x) (exact y)"

definition is_nan :: "pynum \<Rightarrow> bool" where
  "is_nan x = (x = PyFloat NaN)"

subsection \<open>Rounding to a double\<close>

text \<open>
  The exponent e with 2^e <= |q| < 2^(e+1), for q other than zero, from the bit lengths
  of the numerator and the denominator.
\<close>

definition binary_exponent :: "rat \<Rightarrow> int" where
  "binary_exponent q =
     (let (p, d) = quotient_of \<bar>q\<bar>;
          k = bitlen p - bitlen d
      in if 2 powi k \<le> \<bar>q\<bar> then k else k - 1)"

definition round_half_even :: "rat \<Rightarrow> int" where
  "round_half_even x =
     (let f = \<lfloor>x\<rfloor>; r = x - of_int f
      in if r < 1 / 2 then f
         else if 1 / 2 < r then f + 1
         else if even f then f else f + 1)"

text \<open>
  The double nearest to a rational: 53 significant bits, exponents from -1022 (below it
  the spacing of the subnormal numbers), an infinity from 2^1024 on.
\<close>

definition round_double :: "rat \<Rightarrow> fl" where
  "round_double q =
     (if q = 0 then Finite 0
      else (let e = max (binary_exponent q) (- 1022);
                ulp = 2 powi (e - 52);
                v = of_int (round_half_even (q / ulp)) * ulp
            in if 2 powi 1024 \<le> v then PosInf
               else if v \<le> - (2 powi 1024) then NegInf
               else Finite v))"

subsection \<open>Arithmetic on doubles\<close>

fun fl_sign :: "fl \<Rightarrow> int" where
  "fl_sign (Finite q) = (if q < 0 then - 1 else if q = 0 then 0 else 1)"
| "fl_sign PosInf = 1"
| "fl_sign NegInf = - 1"
| "fl_sign NaN = 0"

fun fl_mul :: "fl \<Rightarrow> fl \<Rightarrow> fl" where
  "fl_mul NaN y = NaN"
| "fl_mul x NaN = NaN"
| "fl_mul (Finite a) (Finite b) = round_double (a * b)"
| "fl_mul x y =
     (if fl_sign x * fl_sign y = 0 then NaN
      else if 0 < fl_sign x * fl_sign y then PosInf else NegInf)"

fun fl_add :: "fl \<Rightarrow> fl \<Rightarrow> fl" where
  "fl_add NaN y = NaN"
| "fl_add x NaN = NaN"
| "fl_add (Finite a) (Finite b) = round_double (a + b)"
| "fl_add PosInf NegInf = NaN"
| "fl_add NegInf PosInf = NaN"
| "fl_add PosInf y = PosInf"
| "fl_add x PosInf = PosInf"
| "fl_add NegInf y = NegInf"
| "fl_add x NegInf = NegInf"

text \<open>The quotient of two doubles, for a divisor other than zero.\<close>

fun fl_div :: "fl \<Rightarrow> fl \<Rightarrow> fl" where
  "fl_div NaN y = NaN"
| "fl_div x NaN = NaN"
| "fl_div (Finite a) (Finite b) = round_double (a / b)"
| "fl_div (Finite a) y = Finite 0"
| "fl_div x (Finite b) = (if 0 < fl_sign x * fl_sign (Finite b) then PosInf else NegInf)"
| "fl_div x y = NaN"

subsection \<open>Arithmetic on numbers\<close>

text \<open>\<^verbatim>\<open>float(x)\<close>, which is also how an int operand meets a float operand.\<close>

fun py_float :: "pynum \<Rightarrow> error + fl" where
  "py_float (PyInt i) =
     (case round_double (of_int i) of
        Finite q \<Rightarrow> Inr (Finite q)
      | _ \<Rightarrow> Inl OverflowError)"
| "py_float (PyFloat f) = Inr f"

fun py_mul :: "pynum \<Rightarrow> pynum \<Rightarrow> error + pynum" where
  "py_mul (PyInt i) (PyInt j) = Inr (PyInt (i * j))"
| "py_mul x y =
     (case py_float x of
        Inl e \<Rightarrow> Inl e
      | Inr a \<Rightarrow>
          (case py_float y of
             Inl e \<Rightarrow> Inl e
           | Inr b \<Rightarrow> Inr (PyFloat (fl_mul a b))))"

fun py_add :: "pynum \<Rightarrow> pynum \<Rightarrow> error + pynum" where
  "py_add (PyInt i) (PyInt j) = Inr (PyInt (i + j))"
| "py_add x y =
     (case py_float x of
        Inl e \<Rightarrow> Inl e
      | Inr a \<Rightarrow>
          (case py_float y of
             Inl e \<Rightarrow> Inl e
           | Inr b \<Rightarrow> Inr (PyFloat (fl_add a b))))"

text \<open>
  \<^verbatim>\<open>x / y\<close>. Two ints are divided exactly and the quotient is rounded once; otherwise
  both operands are converted first and a zero divisor is detected after that.
\<close>

fun py_truediv :: "pynum \<Rightarrow> pynum \<Rightarrow> error + pynum" where
  "py_truediv (PyInt i) (PyInt j) =
     (if j = 0 then Inl ZeroDivisionError
      else (case round_double (of_int i / of_int j) of
              Finite q \<Rightarrow> Inr (PyFloat (Finite q))
            | _ \<Rightarrow> Inl OverflowError))"
| "py_truediv x y =
     (case py_float x of
        Inl e \<Rightarrow> Inl e
      | Inr a \<Rightarrow>
          (case py_float y of
             Inl e \<Rightarrow> Inl e
           | Inr b \<Rightarrow>
               if b = Finite 0 then Inl ZeroDivisionError
               else Inr (PyFloat (fl_div a b))))"

section \<open>Data model of \<^verbatim>\<open>pyalgotrade/bar.py\<close>\<close>

text \<open>
  A datetime is a point on a linear time axis (never \<^verbatim>\<open>None\<close>). A frequency is the
  integer the class \<^verbatim>\<open>Frequency\<close> holds.
\<close>

datatype Instrument = Instrument (symbol: string) (priceCurrency: string)

text \<open>
  Modelled from the spec: \<^verbatim>\<open>build_instrument\<close> of \<^verbatim>\<open>pyalgotrade/instrument.py\<close>, which is
  not among the sources. An instrument is the immutable identifier
  (quoteSymbol, priceCurrency) compared by value; on a value that already is an
  instrument the function returns it.
\<close>

definition build_instrument :: "Instrument \<Rightarrow> Instrument" where
  "build_instrument i = i"

subsection \<open>Frequency\<close>

definition TRADE :: int where "TRADE = - 1"
definition SECOND :: int where "SECOND = 1"
definition MINUTE :: int where "MINUTE = 60"
definition HOUR :: int where "HOUR = 60 * 60"
definition DAY :: int where "DAY = 24 * 60 * 60"
definition WEEK :: int where "WEEK = 24 * 60 * 60 * 7"
definition MONTH :: int where "MONTH = 24 * 60 * 60 * 31"

subsection \<open>BasicBar\<close>

record BasicBar =
  b_instrument :: Instrument
  b_dateTime :: datetime
  b_open :: price
  b_close :: price
  b_high :: price
  b_low :: price
  b_volume :: price
  b_adjClose :: "price option"
  b_frequency :: int
  b_useAdjustedValue :: bool
  b_extra :: "(string \<times> price) list"

text \<open>
  \<^verbatim>\<open>BasicBar.__init__\<close>: the chain of five comparisons in the order of the source, each
  raising with its own message (the datetime formatted into the message is left out),
  then the eleven assignments.
\<close>

definition BasicBar_init ::
  "Instrument \<Rightarrow> datetime \<Rightarrow> price \<Rightarrow> price \<Rightarrow> price \<Rightarrow> price \<Rightarrow> price \<Rightarrow> price option
     \<Rightarrow> int \<Rightarrow> (string \<times> price) list \<Rightarrow> error + BasicBar" where
  "BasicBar_init instrument dateTime open' high low close volume adjClose frequency extra =
     (if py_lt high low then Inl (Exception ''high < low'')
      else if py_lt high open' then Inl (Exception ''high < open'')
      else if py_lt high close then Inl (Exception ''high < close'')
      else if py_gt low open' then Inl (Exception ''low > open'')
      else if py_gt low close then Inl (Exception ''low > close'')
      else Inr \<lparr> b_instrument = build_instrument instrument,
                 b_dateTime = dateTime,
                 b_open = open',
                 b_close = close,
                 b_high = high,
                 b_low = low,
                 b_volume = volume,
                 b_adjClose = adjClose,
                 b_frequency = frequency,
                 b_useAdjustedValue = False,
                 b_extra = extra \<rparr>)"

definition getInstrument :: "BasicBar \<Rightarrow> Instrument" where
  "getInstrument self = b_instrument self"

definition getDateTime :: "BasicBar \<Rightarrow> datetime" where
  "getDateTime self = b_dateTime self"

definition getVolume :: "BasicBar \<Rightarrow> price" where
  "getVolume self = b_volume self"

definition getAdjClose :: "BasicBar \<Rightarrow> price option" where
  "getAdjClose self = b_adjClose self"

definition getUseAdjValue :: "BasicBar \<Rightarrow> bool" where
  "getUseAdjValue self = b_useAdjustedValue self"

text \<open>
  \<^verbatim>\<open>setUseAdjustedValue\<close> mutates the bar: the result is the exception raised, if any,
  together with the bar as the call leaves it.
\<close>

definition setUseAdjustedValue :: "bool \<Rightarrow> BasicBar \<Rightarrow> error option \<times> BasicBar" where
  "setUseAdjustedValue useAdjusted self =
     (if useAdjusted \<and> b_adjClose self = None
      then (Some (Exception ''Adjusted close is not available''), self)
      else (None, self\<lparr>b_useAdjustedValue := useAdjusted\<rparr>))"

text \<open>
  The adjusted getters evaluate \<^verbatim>\<open>self.__adjClose * self.__open / float(self.__close)\<close>
  from left to right: the product, the conversion of the close, the quotient. Each step
  can raise.
\<close>

definition getOpen :: "bool \<Rightarrow> BasicBar \<Rightarrow> error + price" where
  "getOpen adjusted self =
     (if adjusted then
        (case b_adjClose self of
           None \<Rightarrow> Inl (Exception ''Adjusted close is missing'')
         | Some a \<Rightarrow>
             (case py_mul a (b_open self) of
                Inl e \<Rightarrow> Inl e
              | Inr n \<Rightarrow>
                  (case py_float (b_close self) of
                     Inl e \<Rightarrow> Inl e
                   | Inr c \<Rightarrow> py_truediv n (PyFloat c))))
      else Inr (b_open self))"

definition getHigh :: "bool \<Rightarrow> BasicBar \<Rightarrow> error + price" where
  "getHigh adjusted self =
     (if adjusted then
        (case b_adjClose self of
           None \<Rightarrow> Inl (Exception ''Adjusted close is missing'')
         | Some a \<Rightarrow>
             (case py_mul a (b_high self) of
                Inl e \<Rightarrow> Inl e
              | Inr n \<Rightarrow>
                  (case py_float (b_close self) of
                     Inl e \<Rightarrow> Inl e
                   | Inr c \<Rightarrow> py_truediv n (PyFloat c))))
      else Inr (b_high self))"

definition getLow :: "bool \<Rightarrow> BasicBar \<Rightarrow> error + price" where
  "getLow adjusted self =
     (if adjusted then
        (case b_adjClose self of
           None \<Rightarrow> Inl (Exception ''Adjusted close is missing'')
         | Some a \<Rightarrow>
             (case py_mul a (b_low self) of
                Inl e \<Rightarrow> Inl e
              | Inr n \<Rightarrow>
                  (case py_float (b_close self) of
                     Inl e \<Rightarrow> Inl e
                   | Inr c \<Rightarrow> py_truediv n (PyFloat c))))
      else Inr (b_low self))"

definition getClose :: "bool \<Rightarrow> BasicBar \<Rightarrow> error + price" where
  "getClose adjusted self =
     (if adjusted then
        (case b_adjClose self of
           None \<Rightarrow> Inl (Exception ''Adjusted close is missing'')
         | Some a \<Rightarrow> Inr a)
      else Inr (b_close self))"

text \<open>
  \<^verbatim>\<open>Bar.getTypicalPrice\<close> calls the three getters with their default argument
  \<^verbatim>\<open>adjusted=False\<close> and evaluates \<^verbatim>\<open>(high + low + close) / 3.0\<close>; an exception of
  any step propagates.
\<close>

definition getTypicalPrice :: "BasicBar \<Rightarrow> error + price" where
  "getTypicalPrice self =
     (case getHigh False self of Inl e \<Rightarrow> Inl e | Inr h \<Rightarrow>
      (case getLow False self of Inl e \<Rightarrow> Inl e | Inr l \<Rightarrow>
       (case py_add h l of Inl e \<Rightarrow> Inl e | Inr hl \<Rightarrow>
        (case getClose False self of Inl e \<Rightarrow> Inl e | Inr c \<Rightarrow>
         (case py_add hl c of Inl e \<Rightarrow> Inl e | Inr hlc \<Rightarrow>
            py_truediv hlc (PyFloat (Finite 3)))))))"

text \<open>
  \<^verbatim>\<open>getPrice\<close> returns the field \<^verbatim>\<open>__adjClose\<close> as it is (possibly \<^verbatim>\<open>None\<close>) when the
  toggle is set, and the close otherwise.
\<close>

definition getPrice :: "BasicBar \<Rightarrow> price option" where
  "getPrice self =
     (if b_useAdjustedValue self then b_adjClose self else Some (b_close self))"

text \<open>
  A caller that issues a sequence of \<^verbatim>\<open>setUseAdjustedValue\<close> calls on one bar, going on
  after a call that raised: the bar after the last call.
\<close>

fun setUseAdjustedValue_calls :: "bool list \<Rightarrow> BasicBar \<Rightarrow> BasicBar" where
  "setUseAdjustedValue_calls [] self = self"
| "setUseAdjustedValue_calls (u # us) self =
     setUseAdjustedValue_calls us (snd (setUseAdjustedValue u self))"

text \<open>
  The formula of the specification for an adjusted field, \<^verbatim>\<open>rawField * a / c\<close>, and its
  formula for the typical price, \<^verbatim>\<open>(high + low + close) / 3\<close>, evaluated as Python
  evaluates them with a float divisor.
\<close>

definition spec_adjusted :: "pynum \<Rightarrow> pynum \<Rightarrow> pynum \<Rightarrow> error + pynum" where
  "spec_adjusted rawField a c =
     (case py_mul rawField a of
        Inl e \<Rightarrow> Inl e
      | Inr n \<Rightarrow>
          (case py_float c of
             Inl e \<Rightarrow> Inl e
           | Inr d \<Rightarrow> py_truediv n (PyFloat d)))"

definition spec_typical :: "pynum \<Rightarrow> pynum \<Rightarrow> pynum \<Rightarrow> error + pynum" where
  "spec_typical high low close =
     (case py_add high low of
        Inl e \<Rightarrow> Inl e
      | Inr hl \<Rightarrow>
          (case py_add hl close of
             Inl e \<Rightarrow> Inl e
           | Inr hlc \<Rightarrow> py_truediv hlc (PyFloat (Finite 3))))"

subsection \<open>Bars\<close>

text \<open>
  The dict \<^verbatim>\<open>__barDict\<close> is an association list in insertion order (the order in which
  a Python dict iterates). \<^verbatim>\<open>__dateTime\<close> holds what the variable \<^verbatim>\<open>firstDateTime\<close> holds
  after the loop, which starts as \<^verbatim>\<open>None\<close>.
\<close>

record Bars =
  barDict :: "(Instrument \<times> BasicBar) list"
  bars_dateTime :: "datetime option"

text \<open>
  The loop of \<^verbatim>\<open>Bars.__init__\<close> over the bars not yet visited, with its three variables.
  A key is assigned only after the assertion that it is not in the dict, so the
  assignment appends an entry.
\<close>

fun Bars_loop ::
  "datetime option \<Rightarrow> Instrument option \<Rightarrow> (Instrument \<times> BasicBar) list \<Rightarrow> BasicBar list
     \<Rightarrow> error + (datetime option \<times> (Instrument \<times> BasicBar) list)" where
  "Bars_loop firstDateTime firstInstrument d [] = Inr (firstDateTime, d)"
| "Bars_loop firstDateTime firstInstrument d (currentBar # rest) =
     (case (case firstDateTime of
              None \<Rightarrow> Inr (Some (getDateTime currentBar), Some (getInstrument currentBar))
            | Some t \<Rightarrow>
                if getDateTime currentBar \<noteq> t
                then Inl (Exception ''Bar data times are not in sync'')
                else Inr (firstDateTime, firstInstrument)) of
        Inl e \<Rightarrow> Inl e
      | Inr (firstDateTime', firstInstrument') \<Rightarrow>
          if getInstrument currentBar \<in> fst ` set d
          then Inl (AssertionError ''Duplicate bars'')
          else Bars_loop firstDateTime' firstInstrument'
                 (d @ [(getInstrument currentBar, currentBar)]) rest)"

definition Bars_init :: "BasicBar list \<Rightarrow> error + Bars" where
  "Bars_init bars =
     (if length bars = 0 then Inl (Exception ''No bars supplied'')
      else (case Bars_loop None None [] bars of
              Inl e \<Rightarrow> Inl e
            | Inr (firstDateTime, d) \<Rightarrow>
                Inr \<lparr> barDict = d, bars_dateTime = firstDateTime \<rparr>))"

definition Bars_getDateTime :: "Bars \<Rightarrow> datetime option" where
  "Bars_getDateTime self = bars_dateTime self"

definition Bars_iter :: "Bars \<Rightarrow> BasicBar list" where
  "Bars_iter self = map snd (barDict self)"

definition Bars_getInstruments :: "Bars \<Rightarrow> Instrument list" where
  "Bars_getInstruments self = map fst (barDict self)"

definition Bars_contains :: "Instrument \<Rightarrow> Bars \<Rightarrow> bool" where
  "Bars_contains instrument self = (build_instrument instrument \<in> fst ` set (barDict self))"

definition Bars_getBar :: "Instrument \<Rightarrow> Bars \<Rightarrow> BasicBar option" where
  "Bars_getBar instrument self = map_of (barDict self) (build_instrument instrument)"

section \<open>Data model of \<^verbatim>\<open>pyalgotrade/barfeed/__init__.py\<close>\<close>

text \<open>
  Modelled from the spec: the per-instrument data series \<^verbatim>\<open>BarDataSeries\<close> of
  \<^verbatim>\<open>pyalgotrade/dataseries/bards.py\<close>, which is not among the sources. Of a data series
  the feed uses its key, its maximum length and the adjusted-values setting that
  \<^verbatim>\<open>setUseAdjustedValues\<close> stores; a new series has the setting off.
\<close>

record BarDataSeries =
  ds_key :: Instrument
  ds_maxLen :: "nat option"
  ds_useAdjustedValues :: bool

definition BarDataSeries_init :: "Instrument \<Rightarrow> nat option \<Rightarrow> BarDataSeries" where
  "BarDataSeries_init key maxLen =
     \<lparr> ds_key = key, ds_maxLen = maxLen, ds_useAdjustedValues = False \<rparr>"

definition BarDataSeries_setUseAdjustedValues :: "bool \<Rightarrow> BarDataSeries \<Rightarrow> BarDataSeries" where
  "BarDataSeries_setUseAdjustedValues useAdjusted self =
     self\<lparr>ds_useAdjustedValues := useAdjusted\<rparr>"

text \<open>
  The state of a \<^verbatim>\<open>BaseBarFeed\<close>. The first two fields are those of its base class
  \<^verbatim>\<open>feed.BaseFeed\<close> (modelled from the spec: \<^verbatim>\<open>pyalgotrade/feed/__init__.py\<close> is not among
  the sources): the maximum length it was built with and the registry of the live
  per-instrument data series, in registration order.
\<close>

record BaseBarFeed =
  f_maxLen :: "nat option"
  f_ds :: "(Instrument \<times> BarDataSeries) list"
  f_frequency :: int
  f_useAdjustedValues :: bool
  f_lastBars :: "Bars option"
  f_lastBarByInstrument :: "Instrument \<rightharpoonup> BasicBar"

text \<open>
  Modelled from the spec: \<^verbatim>\<open>BaseFeed.getAllDataSeries\<close>, the live data series of the
  registry.
\<close>

definition getAllDataSeries :: "'a BaseBarFeed_scheme \<Rightarrow> BarDataSeries list" where
  "getAllDataSeries self = map snd (f_ds self)"

definition createDataSeries ::
  "Instrument \<Rightarrow> nat option \<Rightarrow> 'a BaseBarFeed_scheme \<Rightarrow> BarDataSeries" where
  "createDataSeries key maxLen self =
     (let ret = BarDataSeries_init key maxLen
      in BarDataSeries_setUseAdjustedValues (f_useAdjustedValues self) ret)"

text \<open>
  Modelled from the spec: \<^verbatim>\<open>BaseFeed.registerDataSeries\<close>, which creates the data series of
  a key through \<^verbatim>\<open>createDataSeries\<close> unless the key has one already.
\<close>

definition registerDataSeries :: "Instrument \<Rightarrow> 'a BaseBarFeed_scheme \<Rightarrow> 'a BaseBarFeed_scheme" where
  "registerDataSeries key self =
     (if key \<in> fst ` set (f_ds self) then self
      else self\<lparr>f_ds := f_ds self @ [(key, createDataSeries key (f_maxLen self) self)]\<rparr>)"

text \<open>
  \<^verbatim>\<open>_getNextValues\<close>. The abstract method \<^verbatim>\<open>getNextBars\<close> is a parameter: it returns the
  next group, if any, and the feed as the call leaves it.
\<close>

definition getNextValues ::
  "('a BaseBarFeed_scheme \<Rightarrow> Bars option \<times> 'a BaseBarFeed_scheme) \<Rightarrow> 'a BaseBarFeed_scheme
     \<Rightarrow> (datetime option \<times> Bars option) \<times> 'a BaseBarFeed_scheme" where
  "getNextValues getNextBars self =
     (case getNextBars self of
        (None, self1) \<Rightarrow> ((None, None), self1)
      | (Some bars, self1) \<Rightarrow>
          ((Bars_getDateTime bars, Some bars),
           self1\<lparr> f_lastBarByInstrument :=
                     fold (\<lambda>new_bar m. m(getInstrument new_bar \<mapsto> new_bar)) (Bars_iter bars)
                       (f_lastBarByInstrument self1),
                   f_lastBars := Some bars \<rparr>))"

text \<open>
  \<^verbatim>\<open>setUseAdjustedValues\<close>. The abstract method \<^verbatim>\<open>barsHaveAdjClose\<close> is a parameter. The
  result is the exception raised, if any, and the feed as the call leaves it.
\<close>

definition setUseAdjustedValues ::
  "('a BaseBarFeed_scheme \<Rightarrow> bool) \<Rightarrow> bool \<Rightarrow> 'a BaseBarFeed_scheme
     \<Rightarrow> error option \<times> 'a BaseBarFeed_scheme" where
  "setUseAdjustedValues barsHaveAdjClose useAdjusted self =
     (if useAdjusted \<and> \<not> barsHaveAdjClose self
      then (Some (Exception ''The barfeed doesn't support adjusted close values''), self)
      else (None,
            self\<lparr> f_useAdjustedValues := useAdjusted,
                  f_ds := map (\<lambda>(key, ds). (key, BarDataSeries_setUseAdjustedValues useAdjusted ds))
                            (f_ds self) \<rparr>))"

definition getFrequency :: "'a BaseBarFeed_scheme \<Rightarrow> int" where
  "getFrequency self = f_frequency self"

definition isIntraday :: "'a BaseBarFeed_scheme \<Rightarrow> bool" where
  "isIntraday self = (f_frequency self < DAY)"

definition getCurrentBars :: "'a BaseBarFeed_scheme \<Rightarrow> Bars option" where
  "getCurrentBars self = f_lastBars self"

definition getLastBar :: "Instrument \<Rightarrow> 'a BaseBarFeed_scheme \<Rightarrow> BasicBar option" where
  "getLastBar instrument self = f_lastBarByInstrument self (build_instrument instrument)"

subsection \<open>OptimizerBarFeed\<close>

record OptimizerBarFeed = BaseBarFeed +
  o_bars :: "Bars list"
  o_nextPos :: nat
  o_currDateTime :: "datetime option"
  o_barsHaveAdjClose :: bool

text \<open>
  The two nested loops at the end of \<^verbatim>\<open>OptimizerBarFeed.__init__\<close> both end with
  \<^verbatim>\<open>break\<close>: they visit at most the first bar of the first group.
\<close>

definition check_barsHaveAdjClose :: "Bars list \<Rightarrow> bool" where
  "check_barsHaveAdjClose bars =
     (case bars of
        [] \<Rightarrow> False
      | item # _ \<Rightarrow>
          (case Bars_iter item of
             [] \<Rightarrow> False
           | b # _ \<Rightarrow> getAdjClose b \<noteq> None))"

definition OptimizerBarFeed_init ::
  "int \<Rightarrow> Instrument list \<Rightarrow> Bars list \<Rightarrow> nat option \<Rightarrow> OptimizerBarFeed" where
  "OptimizerBarFeed_init frequency instruments bars maxLen =
     (let self = \<lparr> f_maxLen = maxLen, f_ds = [], f_frequency = frequency,
                    f_useAdjustedValues = False, f_lastBars = None,
                    f_lastBarByInstrument = Map.empty,
                    o_bars = [], o_nextPos = 0, o_currDateTime = None,
                    o_barsHaveAdjClose = False \<rparr>;
          self = fold (\<lambda>instrument. registerDataSeries (build_instrument instrument))
                   instruments self
      in self\<lparr> o_bars := bars, o_nextPos := 0, o_currDateTime := None,
               o_barsHaveAdjClose := check_barsHaveAdjClose bars \<rparr>)"

definition barsHaveAdjClose :: "OptimizerBarFeed \<Rightarrow> bool" where
  "barsHaveAdjClose self = o_barsHaveAdjClose self"

definition eof :: "OptimizerBarFeed \<Rightarrow> bool" where
  "eof self = (o_nextPos self \<ge> length (o_bars self))"

definition peekDateTime :: "OptimizerBarFeed \<Rightarrow> datetime option" where
  "peekDateTime self =
     (if o_nextPos self < length (o_bars self)
      then Bars_getDateTime (o_bars self ! o_nextPos self) else None)"

definition getCurrentDateTime :: "OptimizerBarFeed \<Rightarrow> datetime option" where
  "getCurrentDateTime self = o_currDateTime self"

definition getNextBars :: "OptimizerBarFeed \<Rightarrow> Bars option \<times> OptimizerBarFeed" where
  "getNextBars self =
     (if o_nextPos self < length (o_bars self)
      then (let ret = o_bars self ! o_nextPos self
            in (Some ret,
                self\<lparr> o_currDateTime := Bars_getDateTime ret,
                      o_nextPos := o_nextPos self + 1 \<rparr>))
      else (None, self))"

section \<open>The Dispatcher\<close>

text \<open>
  Modelled from the spec: the Dispatcher and its subjects (\<^verbatim>\<open>pyalgotrade/dispatcher.py\<close> and
  \<^verbatim>\<open>pyalgotrade/observer.py\<close> are not among the sources). A subject is a replay source:
  it has a name, a priority, the timestamps of the events it will still produce (the
  next one first) and the timestamps dispatched for it so far (the oldest first). The
  registered subjects are a list in priority order. Subjects without a next timestamp
  that are not exhausted (live sources), and with them the idle event, are not
  modelled.
\<close>

record Subject =
  s_name :: string
  s_priority :: nat
  s_pending :: "datetime list"
  s_dispatched :: "datetime list"

datatype dispatch_error = OrderingViolation string datetime datetime

text \<open>
  Modelled from the spec: the subject contract \<^verbatim>\<open>eof\<close> and \<^verbatim>\<open>peekDateTime\<close>, and the
  timestamp dispatched last for a subject, if any.
\<close>

definition Subject_eof :: "Subject \<Rightarrow> bool" where
  "Subject_eof s = (s_pending s = [])"

definition Subject_peekDateTime :: "Subject \<Rightarrow> datetime option" where
  "Subject_peekDateTime s = (case s_pending s of [] \<Rightarrow> None | t # _ \<Rightarrow> Some t)"

definition lastDispatched :: "Subject \<Rightarrow> datetime option" where
  "lastDispatched s = (if s_dispatched s = [] then None else Some (last (s_dispatched s)))"

text \<open>
  Modelled from the spec: dispatching a subject consumes its next event. The ordering
  invariant is checked here: a timestamp equal to or earlier than the one dispatched
  before for this subject is a fatal ordering violation that names the subject and the
  two timestamps.
\<close>

definition Subject_dispatch :: "Subject \<Rightarrow> dispatch_error + Subject" where
  "Subject_dispatch s =
     (case s_pending s of
        [] \<Rightarrow> Inr s
      | t # rest \<Rightarrow>
          (case lastDispatched s of
             None \<Rightarrow> Inr (s\<lparr>s_pending := rest, s_dispatched := s_dispatched s @ [t]\<rparr>)
           | Some p \<Rightarrow>
               if t \<le> p then Inl (OrderingViolation (s_name s) p t)
               else Inr (s\<lparr>s_pending := rest, s_dispatched := s_dispatched s @ [t]\<rparr>)))"

text \<open>
  Modelled from the spec: steps 1 and 2 of a pass, the smallest timestamp peeked over
  the subjects that are not exhausted.
\<close>

fun smallestDateTime :: "Subject list \<Rightarrow> datetime option" where
  "smallestDateTime [] = None"
| "smallestDateTime (s # ss) =
     (case (Subject_peekDateTime s, smallestDateTime ss) of
        (None, r) \<Rightarrow> r
      | (Some t, None) \<Rightarrow> Some t
      | (Some t, Some u) \<Rightarrow> Some (min t u))"

text \<open>
  Modelled from the spec: step 3 of a pass, in which every subject whose peeked timestamp
  is the selected one is dispatched, in priority order; the first violation aborts.
\<close>

fun dispatch_pass :: "datetime \<Rightarrow> Subject list \<Rightarrow> dispatch_error + Subject list" where
  "dispatch_pass t [] = Inr []"
| "dispatch_pass t (s # ss) =
     (case (if Subject_peekDateTime s = Some t then Subject_dispatch s else Inr s) of
        Inl e \<Rightarrow> Inl e
      | Inr s' \<Rightarrow>
          (case dispatch_pass t ss of
             Inl e \<Rightarrow> Inl e
           | Inr ss' \<Rightarrow> Inr (s' # ss')))"

text \<open>
  The number of events still to be dispatched; every pass that selects a timestamp
  lowers it, which is why the passes end.
\<close>

definition pending_total :: "Subject list \<Rightarrow> nat" where
  "pending_total ss = sum_list (map (\<lambda>s. length (s_pending s)) ss)"

lemma Subject_dispatch_pending:
  "Subject_dispatch s = Inr s' \<Longrightarrow> Subject_peekDateTime s = Some t \<Longrightarrow>
   Suc (length (s_pending s')) = length (s_pending s)"
  by (auto simp: Subject_dispatch_def Subject_peekDateTime_def
           split: list.splits option.splits if_splits)

lemma dispatch_pass_pending_le:
  "dispatch_pass t ss = Inr ss' \<Longrightarrow> pending_total ss' \<le> pending_total ss"
proof (induction ss arbitrary: ss')
  case Nil
  then show ?case by simp
next
  case (Cons s ss)
  then show ?case
    by (fastforce simp: pending_total_def split: sum.splits if_splits
          dest: Subject_dispatch_pending)
qed

lemma dispatch_pass_pending_less:
  "dispatch_pass t ss = Inr ss' \<Longrightarrow> smallestDateTime ss = Some t \<Longrightarrow>
   pending_total ss' < pending_total ss"
proof (induction ss arbitrary: ss')
  case Nil
  then show ?case by simp
next
  case (Cons s ss)
  from Cons.prems(1) obtain s1 ss1 where
    r: "(if Subject_peekDateTime s = Some t then Subject_dispatch s else Inr s) = Inr s1"
       "dispatch_pass t ss = Inr ss1" "ss' = s1 # ss1"
    by (auto split: sum.splits)
  have le: "pending_total ss1 \<le> pending_total ss"
    using dispatch_pass_pending_le [OF r(2)] .
  show ?case
  proof (cases "Subject_peekDateTime s = Some t")
    case True
    with r(1) have "Suc (length (s_pending s1)) = length (s_pending s)"
      by (simp add: Subject_dispatch_pending)
    with le r(3) show ?thesis by (simp add: pending_total_def)
  next
    case False
    with r(1) have s1: "s1 = s" by simp
    have "smallestDateTime ss = Some t"
      using Cons.prems(2) False
      by (auto split: option.splits simp: min_def split: if_splits)
    from Cons.IH [OF r(2) this] s1 r(3) show ?thesis
      by (simp add: pending_total_def)
  qed
qed

text \<open>
  Modelled from the spec: step 4, the passes are repeated until every subject is
  exhausted; the run returns the subjects as the last pass leaves them, or the
  violation that aborted it.
\<close>

function run :: "Subject list \<Rightarrow> dispatch_error + Subject list" where
  "run ss =
     (case smallestDateTime ss of
        None \<Rightarrow> Inr ss
      | Some t \<Rightarrow>
          (case dispatch_pass t ss of
             Inl e \<Rightarrow> Inl e
           | Inr ss' \<Rightarrow> run ss'))"
  by pat_completeness auto
termination
  by (relation "measure pending_total") (auto simp: dispatch_pass_pending_less)

declare run.simps [simp del]

text \<open>
  For the proofs: the whole sequence of timestamps of a subject (it never changes), whether
  what was dispatched for it is strictly increasing, and the name with the whole sequence.
\<close>

definition whole :: "Subject \<Rightarrow> datetime list" where
  "whole s = s_dispatched s @ s_pending s"

definition ordered :: "Subject \<Rightarrow> bool" where
  "ordered s = sorted_wrt (<) (s_dispatched s)"

definition ident :: "Subject \<Rightarrow> string \<times> datetime list" where
  "ident s = (s_name s, whole s)"

section \<open>Properties of the Python numbers\<close>

lemma fl_le_not_lt: "fl_le x y \<Longrightarrow> \<not> fl_lt y x"
  by (cases x; cases y) auto

lemma fl_le_trans: "fl_le x y \<Longrightarrow> fl_le y z \<Longrightarrow> fl_le x z"
  by (cases x; cases y; cases z) auto

lemma fl_not_le_lt: "x \<noteq> NaN \<Longrightarrow> y \<noteq> NaN \<Longrightarrow> \<not> fl_le x y \<Longrightarrow> fl_lt y x"
  by (cases x; cases y) auto

lemma exact_NaN: "(exact x = NaN) = is_nan x"
  by (cases x) (auto simp: is_nan_def)

lemma fl_mul_commute: "fl_mul x y = fl_mul y x"
  by (cases x; cases y) (auto simp: mult.commute)

lemma py_float_error: "py_float x = Inl e \<Longrightarrow> e = OverflowError"
  by (cases x) (auto split: fl.splits)

lemma py_mul_commute: "py_mul x y = py_mul y x"
proof (cases x)
  case (PyInt i)
  show ?thesis
  proof (cases y)
    case (PyInt j)
    with \<open>x = PyInt i\<close> show ?thesis by (simp add: mult.commute)
  next
    case (PyFloat g)
    with \<open>x = PyInt i\<close> show ?thesis
      by (auto simp: fl_mul_commute split: sum.splits fl.splits)
  qed
next
  case (PyFloat f)
  show ?thesis
  proof (cases y)
    case (PyInt j)
    with \<open>x = PyFloat f\<close> show ?thesis
      by (auto simp: fl_mul_commute split: sum.splits fl.splits)
  next
    case (PyFloat g)
    with \<open>x = PyFloat f\<close> show ?thesis by (simp add: fl_mul_commute)
  qed
qed

text \<open>
  The exponent that \<^const>\<open>binary_exponent\<close> computes is the one that brackets the
  rational between two consecutive powers of two.
\<close>

lemma bitlen_powi:
  assumes "0 < (p::int)"
  shows "2 powi (bitlen p - 1) \<le> (of_int p :: rat) \<and> (of_int p :: rat) < 2 powi (bitlen p)"
proof -
  from bitlen_bounds [OF assms]
  have b: "2 ^ nat (bitlen p - 1) \<le> p" "p < 2 ^ nat (bitlen p)" by simp_all
  have pos: "1 \<le> bitlen p" using assms by (simp add: bitlen_alt_def)
  have "(of_int (2 ^ nat (bitlen p - 1)) :: rat) \<le> of_int p"
    using b(1) by (simp only: of_int_le_iff)
  moreover have "(of_int p :: rat) < of_int (2 ^ nat (bitlen p))"
    using b(2) by (simp only: of_int_less_iff)
  ultimately show ?thesis
    using pos by (simp add: power_int_def)
qed

lemma binary_exponent_bounds:
  assumes "q \<noteq> 0"
  shows "2 powi (binary_exponent q) \<le> \<bar>q\<bar> \<and> \<bar>q\<bar> < 2 powi (binary_exponent q + 1)"
proof -
  obtain p d where pd: "quotient_of \<bar>q\<bar> = (p, d)" by (cases "quotient_of \<bar>q\<bar>")
  have d: "0 < d" using pd by (rule quotient_of_denom_pos)
  have q: "\<bar>q\<bar> = of_int p / of_int d" using pd by (rule quotient_of_div)
  have "0 < \<bar>q\<bar>" using assms by simp
  with q d have p: "0 < p" by (simp add: zero_less_divide_iff)
  let ?k = "bitlen p - bitlen d"
  from bitlen_powi [OF p] bitlen_powi [OF d]
  have bp: "(of_int p :: rat) < 2 powi (bitlen p)"
    and bd: "2 powi (bitlen d - 1) \<le> (of_int d :: rat)" by simp_all
  have dpos: "(0::rat) < of_int d" using d by simp
  have "of_int p / of_int d < 2 powi (bitlen p) / (of_int d :: rat)"
    using bp dpos by (simp add: divide_strict_right_mono)
  also have "\<dots> \<le> 2 powi (bitlen p) / 2 powi (bitlen d - 1)"
    using bd by (simp add: frac_le)
  also have "\<dots> = 2 powi (bitlen p - (bitlen d - 1))"
    by (subst power_int_diff) simp_all
  also have "bitlen p - (bitlen d - 1) = ?k + 1" by simp
  finally have upper: "\<bar>q\<bar> < 2 powi (?k + 1)" using q by simp
  show ?thesis
  proof (cases "2 powi ?k \<le> \<bar>q\<bar>")
    case True
    with upper pd show ?thesis by (simp add: binary_exponent_def)
  next
    case False
    from bitlen_powi [OF p] bitlen_powi [OF d]
    have lp: "2 powi (bitlen p - 1) \<le> (of_int p :: rat)"
      and ld: "(of_int d :: rat) < 2 powi (bitlen d)" by simp_all
    have "2 powi (bitlen p - 1) / (2 powi (bitlen d) :: rat) = 2 powi ((bitlen p - 1) - bitlen d)"
      by (subst power_int_diff) simp_all
    moreover have "(bitlen p - 1) - bitlen d = ?k - 1" by simp
    ultimately have "2 powi (?k - 1) = 2 powi (bitlen p - 1) / (2 powi (bitlen d) :: rat)"
      by simp
    also have "\<dots> \<le> of_int p / 2 powi (bitlen d)"
      using lp by (simp add: divide_right_mono)
    also have "\<dots> \<le> of_int p / of_int d"
      using ld dpos p by (simp add: frac_le)
    finally have "2 powi (?k - 1) \<le> \<bar>q\<bar>" using q by simp
    with False pd show ?thesis by (simp add: binary_exponent_def)
  qed
qed

lemma binary_exponent_eq:
  assumes "2 powi e \<le> \<bar>q\<bar>" and "\<bar>q\<bar> < 2 powi (e + 1)"
  shows "binary_exponent q = e"
proof -
  have "(0::rat) < 2 powi e" by (rule zero_less_power_int) simp
  with assms(1) have "0 < \<bar>q\<bar>" by linarith
  then have "q \<noteq> 0" by auto
  from binary_exponent_bounds [OF this]
  have b: "2 powi (binary_exponent q) \<le> \<bar>q\<bar>" "\<bar>q\<bar> < 2 powi (binary_exponent q + 1)"
    by simp_all
  from assms(1) b(2) have "(2::rat) powi e < 2 powi (binary_exponent q + 1)" by simp
  then have "e < binary_exponent q + 1"
    using power_int_increasing [of "binary_exponent q + 1" e "2::rat"] by force
  moreover from b(1) assms(2) have "(2::rat) powi (binary_exponent q) < 2 powi (e + 1)" by simp
  then have "binary_exponent q < e + 1"
    using power_int_increasing [of "e + 1" "binary_exponent q" "2::rat"] by force
  ultimately show ?thesis by simp
qed

text \<open>
  Evaluating \<^const>\<open>round_double\<close> at a given rational: it is enough to name the exponent
  and an integer multiple of the spacing that is less than half a spacing away.
\<close>

lemma round_half_even_near:
  assumes "of_int n - 1 / 2 < x" and "x < of_int n + 1 / 2"
  shows "round_half_even x = n"
proof (cases "of_int n \<le> x")
  case True
  have "x < of_int n + 1" using assms(2) by linarith
  with True have f: "\<lfloor>x\<rfloor> = n" by (simp add: floor_unique)
  with assms(2) show ?thesis by (simp add: round_half_even_def Let_def)
next
  case False
  then have "of_int (n - 1) \<le> x" "x < of_int (n - 1) + 1" using assms(1) by simp_all
  then have f: "\<lfloor>x\<rfloor> = n - 1" by (rule floor_unique)
  from assms(1) have "1 / 2 < x - of_int (n - 1)" by simp
  with f show ?thesis by (simp add: round_half_even_def Let_def)
qed

lemma abs_half_bounds:
  "\<bar>x - of_int n\<bar> * 2 < (1::rat) \<Longrightarrow> of_int n - 1 / 2 < x \<and> x < of_int n + 1 / 2"
  by (auto simp: abs_if split: if_splits)

lemma round_double_at:
  assumes "2 powi e \<le> \<bar>q\<bar>" and "\<bar>q\<bar> < 2 powi (e + 1)"
      and "e' = max e (- 1022)"
      and "\<bar>q - of_int n * 2 powi (e' - 52)\<bar> * 2 < 2 powi (e' - 52)"
  shows "round_double q =
           (if 2 powi 1024 \<le> of_int n * (2 powi (e' - 52) :: rat) then PosInf
            else if of_int n * (2 powi (e' - 52) :: rat) \<le> - (2 powi 1024) then NegInf
            else Finite (of_int n * 2 powi (e' - 52)))"
proof -
  have "(0::rat) < 2 powi e" by (rule zero_less_power_int) simp
  with assms(1) have "0 < \<bar>q\<bar>" by linarith
  then have nz: "q \<noteq> 0" by auto
  let ?ulp = "2 powi (e' - 52) :: rat"
  have ulp: "0 < ?ulp" by (rule zero_less_power_int) simp
  have "(q / ?ulp - of_int n) * ?ulp = q - of_int n * ?ulp"
    using ulp by (simp add: left_diff_distrib)
  moreover have "\<bar>q / ?ulp - of_int n\<bar> * ?ulp = \<bar>(q / ?ulp - of_int n) * ?ulp\<bar>"
    using ulp by (simp add: abs_mult)
  ultimately have "\<bar>q / ?ulp - of_int n\<bar> * ?ulp = \<bar>q - of_int n * ?ulp\<bar>"
    by (simp only:)
  with assms(4) have "\<bar>q / ?ulp - of_int n\<bar> * ?ulp * 2 < 1 * ?ulp" by simp
  then have "\<bar>q / ?ulp - of_int n\<bar> * 2 < 1" using ulp by simp
  then have "of_int n - 1 / 2 < q / ?ulp \<and> q / ?ulp < of_int n + 1 / 2"
    by (rule abs_half_bounds)
  then have "of_int n - 1 / 2 < q / ?ulp" "q / ?ulp < of_int n + 1 / 2" by blast+
  then have "round_half_even (q / ?ulp) = n" by (rule round_half_even_near)
  with nz binary_exponent_eq [OF assms(1,2)] assms(3) show ?thesis
    by (simp add: round_double_def Let_def)
qed

lemma round_half_even_ge:
  "of_int m \<le> x \<Longrightarrow> m \<le> round_half_even x"
proof -
  assume "of_int m \<le> x"
  then have "m \<le> \<lfloor>x\<rfloor>" by (simp add: le_floor_iff)
  then show ?thesis by (simp add: round_half_even_def Let_def)
qed

lemma round_double_overflow:
  assumes "2 powi 1024 \<le> q"
  shows "round_double q = PosInf"
proof -
  have q: "0 < q" "\<bar>q\<bar> = q" using assms by (simp_all add: power_int_def) 
  then have nz: "q \<noteq> 0" by simp
  let ?e = "binary_exponent q"
  from binary_exponent_bounds [OF nz] q
  have b: "2 powi ?e \<le> q" "q < 2 powi (?e + 1)" by simp_all
  from assms b(2) have "(2::rat) powi 1024 < 2 powi (?e + 1)" by simp
  then have e: "1024 \<le> ?e"
    using power_int_increasing [of "?e + 1" 1024 "2::rat"] by force
  then have m: "max ?e (- 1022) = ?e" by simp
  let ?ulp = "2 powi (?e - 52) :: rat"
  have ulp: "0 < ?ulp" by (rule zero_less_power_int) simp
  have "(2::rat) powi 52 * ?ulp = 2 powi (52 + (?e - 52))"
    by (subst power_int_add) simp_all
  then have split: "(2::rat) powi 52 * ?ulp = 2 powi ?e" by simp
  then have "of_int (2 ^ 52) * ?ulp \<le> q" using b(1) by simp
  then have "of_int (2 ^ 52) \<le> q / ?ulp" using ulp by (simp add: pos_le_divide_eq)
  then have "2 ^ 52 \<le> round_half_even (q / ?ulp)" by (rule round_half_even_ge)
  then have "(of_int (2 ^ 52) :: rat) \<le> of_int (round_half_even (q / ?ulp))"
    by (simp only: of_int_le_iff)
  then have "of_int (2 ^ 52) * ?ulp \<le> of_int (round_half_even (q / ?ulp)) * ?ulp"
    using ulp by (simp only: mult_le_cancel_right_pos)
  with split have "2 powi ?e \<le> of_int (round_half_even (q / ?ulp)) * ?ulp" by simp
  moreover have "(2::rat) powi 1024 \<le> 2 powi ?e"
    using e by (intro power_int_increasing) simp_all
  ultimately have "2 powi 1024 \<le> of_int (round_half_even (q / ?ulp)) * ?ulp" by linarith
  with nz m show ?thesis by (simp add: round_double_def Let_def)
qed

lemma round_double_zero: "round_double 0 = Finite 0"
  by (simp add: round_double_def)

section \<open>Properties of BasicBar\<close>

text \<open>
  C1 as the specification states it promises an exception for every quadruple that
  violates one of the inequalities. Every comparison with a NaN is false, so none of the
  five tests of the constructor fires when the high is a NaN: the bar is built, although
  open <= high does not hold.
\<close>

theorem C1_nan_high_counterexample:
  "BasicBar_init (Instrument ''ORCL'' ''USD'') 5 (PyInt 2) (PyFloat NaN) (PyInt 1) (PyInt 2)
       (PyInt 10) (Some (PyInt 1)) DAY [] =
     Inr \<lparr> b_instrument = Instrument ''ORCL'' ''USD'', b_dateTime = 5, b_open = PyInt 2,
            b_close = PyInt 2, b_high = PyFloat NaN, b_low = PyInt 1, b_volume = PyInt 10,
            b_adjClose = Some (PyInt 1), b_frequency = DAY,
            b_useAdjustedValue = False, b_extra = [] \<rparr>
   \<and> \<not> py_le (PyInt 2) (PyFloat NaN)"
  by (simp add: BasicBar_init_def build_instrument_def py_lt_def py_gt_def py_le_def)

text \<open>
  C1, amended. For every OHLC quadruple with low <= open <= high and low <= close <= high,
  and any instrument, datetime, volume, adjusted close and frequency, the construction of
  a BasicBar succeeds, and the bar holds the values given, unchanged. For every quadruple
  without a NaN that violates one of the inequalities the construction raises and there
  is no bar. In every case the construction raises exactly when one of the five
  comparisons high < low, high < open, high < close, low > open, low > close holds.
\<close>

theorem C1_BasicBar_init_validates:
  "(py_le low open' \<and> py_le open' high \<and> py_le low close \<and> py_le close high \<longrightarrow>
      BasicBar_init instrument dateTime open' high low close volume adjClose frequency extra =
        Inr \<lparr> b_instrument = instrument, b_dateTime = dateTime, b_open = open',
              b_close = close, b_high = high, b_low = low, b_volume = volume,
              b_adjClose = adjClose, b_frequency = frequency,
              b_useAdjustedValue = False, b_extra = extra \<rparr>)
   \<and> (\<not> is_nan open' \<and> \<not> is_nan high \<and> \<not> is_nan low \<and> \<not> is_nan close
      \<and> \<not> (py_le low open' \<and> py_le open' high \<and> py_le low close \<and> py_le close high) \<longrightarrow>
      (\<exists>msg. BasicBar_init instrument dateTime open' high low close volume adjClose
                frequency extra = Inl (Exception msg)))
   \<and> ((\<exists>e. BasicBar_init instrument dateTime open' high low close volume adjClose
                frequency extra = Inl e) =
        (py_lt high low \<or> py_lt high open' \<or> py_lt high close
         \<or> py_gt low open' \<or> py_gt low close))"
proof (intro conjI impI)
  assume a: "py_le low open' \<and> py_le open' high \<and> py_le low close \<and> py_le close high"
  then have "fl_le (exact low) (exact high)"
    using fl_le_trans [of "exact low" "exact open'" "exact high"] by (simp add: py_le_def)
  then have 1: "\<not> py_lt high low" by (simp add: py_lt_def fl_le_not_lt)
  from a have 2: "\<not> py_lt high open'" "\<not> py_lt high close"
    "\<not> py_gt low open'" "\<not> py_gt low close"
    by (simp_all add: py_le_def py_lt_def py_gt_def fl_le_not_lt)
  from 1 2 show "BasicBar_init instrument dateTime open' high low close volume adjClose
      frequency extra =
        Inr \<lparr> b_instrument = instrument, b_dateTime = dateTime, b_open = open',
              b_close = close, b_high = high, b_low = low, b_volume = volume,
              b_adjClose = adjClose, b_frequency = frequency,
              b_useAdjustedValue = False, b_extra = extra \<rparr>"
    by (simp add: BasicBar_init_def build_instrument_def)
next
  assume b: "\<not> is_nan open' \<and> \<not> is_nan high \<and> \<not> is_nan low \<and> \<not> is_nan close
      \<and> \<not> (py_le low open' \<and> py_le open' high \<and> py_le low close \<and> py_le close high)"
  then have n: "exact open' \<noteq> NaN" "exact high \<noteq> NaN" "exact low \<noteq> NaN" "exact close \<noteq> NaN"
    by (simp_all add: exact_NaN)
  from b have "\<not> fl_le (exact low) (exact open') \<or> \<not> fl_le (exact open') (exact high)
      \<or> \<not> fl_le (exact low) (exact close) \<or> \<not> fl_le (exact close) (exact high)"
    by (simp add: py_le_def)
  with n have "py_gt low open' \<or> py_lt high open' \<or> py_gt low close \<or> py_lt high close"
    unfolding py_gt_def py_lt_def by (blast intro: fl_not_le_lt)
  then show "\<exists>msg. BasicBar_init instrument dateTime open' high low close volume adjClose
                frequency extra = Inl (Exception msg)"
    by (auto simp: BasicBar_init_def)
next
  show "(\<exists>e. BasicBar_init instrument dateTime open' high low close volume adjClose
                frequency extra = Inl e) =
        (py_lt high low \<or> py_lt high open' \<or> py_lt high close
         \<or> py_gt low open' \<or> py_gt low close)"
    by (auto simp: BasicBar_init_def)
qed

theorem C1_BasicBar_init_validates_witness:
  "BasicBar_init (Instrument ''ORCL'' ''USD'') 5 (PyInt 2) (PyInt 3) (PyInt 1) (PyInt 2)
       (PyInt 10) (Some (PyInt 1)) DAY [] =
     Inr \<lparr> b_instrument = Instrument ''ORCL'' ''USD'', b_dateTime = 5, b_open = PyInt 2,
            b_close = PyInt 2, b_high = PyInt 3, b_low = PyInt 1, b_volume = PyInt 10,
            b_adjClose = Some (PyInt 1), b_frequency = DAY,
            b_useAdjustedValue = False, b_extra = [] \<rparr>
   \<and> (\<exists>msg. BasicBar_init (Instrument ''ORCL'' ''USD'') 5 (PyInt 4) (PyInt 3) (PyInt 1) (PyInt 2)
                (PyInt 10) (Some (PyInt 1)) DAY [] = Inl (Exception msg))"
  using C1_BasicBar_init_validates
          [of "PyInt 1" "PyInt 2" "PyInt 3" "PyInt 2" "Instrument ''ORCL'' ''USD''" 5
              "PyInt 10" "Some (PyInt 1)" DAY "[]"]
        C1_BasicBar_init_validates
          [of "PyInt 1" "PyInt 4" "PyInt 3" "PyInt 2" "Instrument ''ORCL'' ''USD''" 5
              "PyInt 10" "Some (PyInt 1)" DAY "[]"]
  by (simp add: py_le_def is_nan_def)

text \<open>
  C4 as the specification states it asks \<^verbatim>\<open>getOpen(adjusted=True)\<close> to return a value for
  every bar with an adjusted close. A bar whose four prices are zero passes the
  constructor, and the division by its close raises \<^verbatim>\<open>ZeroDivisionError\<close>. A bar whose
  four prices are the int 2^1024 passes it too, and the conversion of its close raises
  \<^verbatim>\<open>OverflowError\<close>.
\<close>

theorem C4_adjusted_zero_close_counterexample:
  "BasicBar_init (Instrument ''ORCL'' ''USD'') 5 (PyInt 0) (PyInt 0) (PyInt 0) (PyInt 0)
       (PyInt 10) (Some (PyInt 1)) DAY [] =
     Inr \<lparr> b_instrument = Instrument ''ORCL'' ''USD'', b_dateTime = 5, b_open = PyInt 0,
            b_close = PyInt 0, b_high = PyInt 0, b_low = PyInt 0, b_volume = PyInt 10,
            b_adjClose = Some (PyInt 1), b_frequency = DAY,
            b_useAdjustedValue = False, b_extra = [] \<rparr>
   \<and> getOpen True \<lparr> b_instrument = Instrument ''ORCL'' ''USD'', b_dateTime = 5, b_open = PyInt 0,
            b_close = PyInt 0, b_high = PyInt 0, b_low = PyInt 0, b_volume = PyInt 10,
            b_adjClose = Some (PyInt 1), b_frequency = DAY,
            b_useAdjustedValue = False, b_extra = [] \<rparr> = Inl ZeroDivisionError
   \<and> BasicBar_init (Instrument ''ORCL'' ''USD'') 5 (PyInt (2 ^ 1024)) (PyInt (2 ^ 1024)) (PyInt (2 ^ 1024)) (PyInt (2 ^ 1024))
       (PyInt 10) (Some (PyInt 1)) DAY [] =
     Inr \<lparr> b_instrument = Instrument ''ORCL'' ''USD'', b_dateTime = 5, b_open = PyInt (2 ^ 1024),
            b_close = PyInt (2 ^ 1024), b_high = PyInt (2 ^ 1024), b_low = PyInt (2 ^ 1024), b_volume = PyInt 10,
            b_adjClose = Some (PyInt 1), b_frequency = DAY,
            b_useAdjustedValue = False, b_extra = [] \<rparr>
   \<and> getOpen True \<lparr> b_instrument = Instrument ''ORCL'' ''USD'', b_dateTime = 5, b_open = PyInt (2 ^ 1024),
            b_close = PyInt (2 ^ 1024), b_high = PyInt (2 ^ 1024), b_low = PyInt (2 ^ 1024), b_volume = PyInt 10,
            b_adjClose = Some (PyInt 1), b_frequency = DAY,
            b_useAdjustedValue = False, b_extra = [] \<rparr> = Inl OverflowError"
proof -
  have big: "round_double (2 ^ 1024) = PosInf"
    by (rule round_double_overflow) simp
  have "py_float (PyInt (2 ^ 1024)) = Inl OverflowError"
    using big by simp
  then have "getOpen True \<lparr> b_instrument = Instrument ''ORCL'' ''USD'', b_dateTime = 5, b_open = PyInt (2 ^ 1024),
            b_close = PyInt (2 ^ 1024), b_high = PyInt (2 ^ 1024), b_low = PyInt (2 ^ 1024), b_volume = PyInt 10,
            b_adjClose = Some (PyInt 1), b_frequency = DAY,
            b_useAdjustedValue = False, b_extra = [] \<rparr> = Inl OverflowError"
    by (simp add: getOpen_def)
  then show ?thesis
    by (simp add: BasicBar_init_def build_instrument_def py_lt_def py_gt_def getOpen_def
          round_double_zero)
qed

text \<open>
  C4, amended. For every BasicBar with a non-null adjusted close a and raw close c,
  getOpen, getHigh and getLow with adjusted=True evaluate rawField * a / c in Python's
  arithmetic, with c converted to a float: for float prices and c other than zero they
  return exactly the double rawField * a / c (the product rounded to the nearest double,
  then the quotient rounded to the nearest double); when c is zero they raise
  (ZeroDivisionError, or OverflowError when an int operand is too large for a float). For
  every BasicBar whose adjusted close is null each of the three calls with adjusted=True
  raises.
\<close>

theorem C4_adjusted_values:
  "(b_adjClose self = None \<longrightarrow>
      getOpen True self = Inl (Exception ''Adjusted close is missing'')
    \<and> getHigh True self = Inl (Exception ''Adjusted close is missing'')
    \<and> getLow True self = Inl (Exception ''Adjusted close is missing''))
   \<and> (b_adjClose self = Some a \<longrightarrow>
      getOpen True self = spec_adjusted (b_open self) a (b_close self)
    \<and> getHigh True self = spec_adjusted (b_high self) a (b_close self)
    \<and> getLow True self = spec_adjusted (b_low self) a (b_close self))
   \<and> spec_adjusted (PyFloat x) (PyFloat y) (PyFloat z) =
        (if z = Finite 0 then Inl ZeroDivisionError
         else Inr (PyFloat (fl_div (fl_mul x y) z)))
   \<and> (exact c = Finite 0 \<longrightarrow>
        spec_adjusted r b c = Inl ZeroDivisionError \<or> spec_adjusted r b c = Inl OverflowError)"
proof (intro conjI impI)
  assume "b_adjClose self = None"
  then show "getOpen True self = Inl (Exception ''Adjusted close is missing'')"
    "getHigh True self = Inl (Exception ''Adjusted close is missing'')"
    "getLow True self = Inl (Exception ''Adjusted close is missing'')"
    by (simp_all add: getOpen_def getHigh_def getLow_def)
next
  assume "b_adjClose self = Some a"
  then show "getOpen True self = spec_adjusted (b_open self) a (b_close self)"
    "getHigh True self = spec_adjusted (b_high self) a (b_close self)"
    "getLow True self = spec_adjusted (b_low self) a (b_close self)"
    by (simp_all add: getOpen_def getHigh_def getLow_def spec_adjusted_def
          py_mul_commute [of a])
next
  show "spec_adjusted (PyFloat x) (PyFloat y) (PyFloat z) =
        (if z = Finite 0 then Inl ZeroDivisionError
         else Inr (PyFloat (fl_div (fl_mul x y) z)))"
    by (simp add: spec_adjusted_def)
next
  assume z: "exact c = Finite 0"
  have c: "py_float c = Inr (Finite 0)"
    using z by (cases c) (simp_all add: round_double_zero)
  show "spec_adjusted r b c = Inl ZeroDivisionError \<or> spec_adjusted r b c = Inl OverflowError"
  proof (cases "py_mul r b")
    case (Inl e)
    then have "e = OverflowError"
      by (cases r; cases b) (auto split: sum.splits fl.splits)
    with Inl show ?thesis by (simp add: spec_adjusted_def)
  next
    case (Inr n)
    show ?thesis
    proof (cases "py_float n")
      case (Inl e)
      then have "e = OverflowError" by (rule py_float_error)
      with Inl Inr c show ?thesis by (simp add: spec_adjusted_def)
    next
      case (Inr m)
      with \<open>py_mul r b = Inr n\<close> c show ?thesis by (simp add: spec_adjusted_def)
    qed
  qed
qed

theorem C4_adjusted_values_witness:
  "getOpen True \<lparr> b_instrument = Instrument ''ORCL'' ''USD'', b_dateTime = 5, b_open = PyInt 1,
            b_close = PyInt 3, b_high = PyInt 3, b_low = PyInt 1, b_volume = PyInt 10,
            b_adjClose = Some (PyInt 1), b_frequency = DAY,
            b_useAdjustedValue = False, b_extra = [] \<rparr> =
     Inr (PyFloat (Finite (6004799503160661 / 18014398509481984)))
   \<and> getHigh True \<lparr> b_instrument = Instrument ''ORCL'' ''USD'', b_dateTime = 5, b_open = PyInt 1,
            b_close = PyInt 3, b_high = PyInt 3, b_low = PyInt 1, b_volume = PyInt 10,
            b_adjClose = Some (PyInt 1), b_frequency = DAY,
            b_useAdjustedValue = False, b_extra = [] \<rparr> =
     Inr (PyFloat (Finite 1))
   \<and> getLow True \<lparr> b_instrument = Instrument ''ORCL'' ''USD'', b_dateTime = 5, b_open = PyInt 1,
            b_close = PyInt 3, b_high = PyInt 3, b_low = PyInt 1, b_volume = PyInt 10,
            b_adjClose = None, b_frequency = DAY,
            b_useAdjustedValue = False, b_extra = [] \<rparr> =
     Inl (Exception ''Adjusted close is missing'')
   \<and> spec_adjusted (PyFloat (Finite (5764607523034235 / 576460752303423488))) (PyFloat (Finite (1080863910568919 / 36028797018963968)))
        (PyFloat (Finite (5764607523034235 / 576460752303423488))) =
     Inr (PyFloat (Finite (8646911284551351 / 288230376151711744)))"
proof -
  have r1: "round_double 1 = Finite 1"
    by (subst round_double_at [of 0 _ 0 4503599627370496]) simp_all
  have r3: "round_double 3 = Finite 3"
    by (subst round_double_at [of 1 _ 1 6755399441055744]) simp_all
  have r13: "round_double (1 / 3) = Finite (6004799503160661 / 18014398509481984)"
    by (subst round_double_at [of "- 2" _ "- 2" 6004799503160661]) simp_all
  have m: "round_double ((5764607523034235 / 576460752303423488) * (1080863910568919 / 36028797018963968)) =
             Finite (5534023222112865 / 18446744073709551616)"
    by (subst round_double_at [of "- 12" _ "- 12" 5534023222112865]) simp_all
  have d: "round_double ((5534023222112865 / 18446744073709551616) / (5764607523034235 / 576460752303423488)) =
             Finite (8646911284551351 / 288230376151711744)"
    by (subst round_double_at [of "- 6" _ "- 6" 8646911284551351]) simp_all
  have o: "spec_adjusted (PyInt 1) (PyInt 1) (PyInt 3) =
             Inr (PyFloat (Finite (6004799503160661 / 18014398509481984)))"
    by (simp add: spec_adjusted_def r1 r3 r13)
  have h: "spec_adjusted (PyInt 3) (PyInt 1) (PyInt 3) = Inr (PyFloat (Finite 1))"
    by (simp add: spec_adjusted_def r1 r3)
  have f: "fl_div (fl_mul (Finite (5764607523034235 / 576460752303423488)) (Finite (1080863910568919 / 36028797018963968))) (Finite (5764607523034235 / 576460752303423488)) =
             Finite (8646911284551351 / 288230376151711744)"
    by (simp only: fl_mul.simps fl_div.simps m d)
  from C4_adjusted_values
         [of "\<lparr> b_instrument = Instrument ''ORCL'' ''USD'', b_dateTime = 5, b_open = PyInt 1,
            b_close = PyInt 3, b_high = PyInt 3, b_low = PyInt 1, b_volume = PyInt 10,
            b_adjClose = Some (PyInt 1), b_frequency = DAY,
            b_useAdjustedValue = False, b_extra = [] \<rparr>" "PyInt 1"]
       C4_adjusted_values
         [of "\<lparr> b_instrument = Instrument ''ORCL'' ''USD'', b_dateTime = 5, b_open = PyInt 1,
            b_close = PyInt 3, b_high = PyInt 3, b_low = PyInt 1, b_volume = PyInt 10,
            b_adjClose = None, b_frequency = DAY,
            b_useAdjustedValue = False, b_extra = [] \<rparr>" "PyInt 1"
             "Finite (5764607523034235 / 576460752303423488)" "Finite (1080863910568919 / 36028797018963968)" "Finite (5764607523034235 / 576460752303423488)"]
       o h f
  show ?thesis by simp
qed

text \<open>
  A sequence of \<^verbatim>\<open>setUseAdjustedValue\<close> calls changes no field but the toggle.
\<close>

lemma setUseAdjustedValue_calls_frame:
  "(setUseAdjustedValue_calls us self)\<lparr>b_useAdjustedValue := t\<rparr> =
     self\<lparr>b_useAdjustedValue := t\<rparr>"
  by (induction us arbitrary: self) (auto simp: setUseAdjustedValue_def)

text \<open>
  C7. getPrice returns the adjusted close when the toggle of the bar is set and the raw
  close otherwise. setUseAdjustedValue(True) raises on a bar without an adjusted close and
  leaves the bar as it was; every other call succeeds and changes the toggle only; after
  any sequence of calls every field but the toggle is what it was.
\<close>

theorem C7_price_and_toggle:
  "getPrice self = (if getUseAdjValue self then getAdjClose self else Some (b_close self))
   \<and> (getAdjClose self = None \<longrightarrow>
        setUseAdjustedValue True self =
          (Some (Exception ''Adjusted close is not available''), self))
   \<and> (getAdjClose self \<noteq> None \<or> \<not> u \<longrightarrow>
        setUseAdjustedValue u self = (None, self\<lparr>b_useAdjustedValue := u\<rparr>))
   \<and> (setUseAdjustedValue_calls us self)\<lparr>b_useAdjustedValue := b_useAdjustedValue self\<rparr> = self"
proof -
  have "(setUseAdjustedValue_calls us self)\<lparr>b_useAdjustedValue := b_useAdjustedValue self\<rparr> =
          self\<lparr>b_useAdjustedValue := b_useAdjustedValue self\<rparr>"
    by (rule setUseAdjustedValue_calls_frame)
  then show ?thesis
    by (auto simp: getPrice_def getUseAdjValue_def getAdjClose_def setUseAdjustedValue_def)
qed

theorem C7_price_and_toggle_witness:
  "setUseAdjustedValue True
       \<lparr> b_instrument = Instrument ''ORCL'' ''USD'', b_dateTime = 5, b_open = PyInt 2,
         b_close = PyInt 4, b_high = PyInt 6, b_low = PyInt 1, b_volume = PyInt 10,
         b_adjClose = None, b_frequency = DAY,
         b_useAdjustedValue = False, b_extra = [] \<rparr> =
     (Some (Exception ''Adjusted close is not available''),
       \<lparr> b_instrument = Instrument ''ORCL'' ''USD'', b_dateTime = 5, b_open = PyInt 2,
         b_close = PyInt 4, b_high = PyInt 6, b_low = PyInt 1, b_volume = PyInt 10,
         b_adjClose = None, b_frequency = DAY,
         b_useAdjustedValue = False, b_extra = [] \<rparr>)
   \<and> setUseAdjustedValue True
       \<lparr> b_instrument = Instrument ''ORCL'' ''USD'', b_dateTime = 5, b_open = PyInt 2,
         b_close = PyInt 4, b_high = PyInt 6, b_low = PyInt 1, b_volume = PyInt 10,
         b_adjClose = Some (PyInt 3), b_frequency = DAY,
         b_useAdjustedValue = False, b_extra = [] \<rparr> =
     (None,
       \<lparr> b_instrument = Instrument ''ORCL'' ''USD'', b_dateTime = 5, b_open = PyInt 2,
         b_close = PyInt 4, b_high = PyInt 6, b_low = PyInt 1, b_volume = PyInt 10,
         b_adjClose = Some (PyInt 3), b_frequency = DAY,
         b_useAdjustedValue = True, b_extra = [] \<rparr>)
   \<and> getPrice
       \<lparr> b_instrument = Instrument ''ORCL'' ''USD'', b_dateTime = 5, b_open = PyInt 2,
         b_close = PyInt 4, b_high = PyInt 6, b_low = PyInt 1, b_volume = PyInt 10,
         b_adjClose = Some (PyInt 3), b_frequency = DAY,
         b_useAdjustedValue = True, b_extra = [] \<rparr> = Some (PyInt 3)"
  using C7_price_and_toggle
          [of "\<lparr> b_instrument = Instrument ''ORCL'' ''USD'', b_dateTime = 5, b_open = PyInt 2,
                 b_close = PyInt 4, b_high = PyInt 6, b_low = PyInt 1, b_volume = PyInt 10,
                 b_adjClose = None, b_frequency = DAY,
                 b_useAdjustedValue = False, b_extra = [] \<rparr>" True "[]"]
        C7_price_and_toggle
          [of "\<lparr> b_instrument = Instrument ''ORCL'' ''USD'', b_dateTime = 5, b_open = PyInt 2,
                 b_close = PyInt 4, b_high = PyInt 6, b_low = PyInt 1, b_volume = PyInt 10,
                 b_adjClose = Some (PyInt 3), b_frequency = DAY,
                 b_useAdjustedValue = False, b_extra = [] \<rparr>" True "[]"]
        C7_price_and_toggle
          [of "\<lparr> b_instrument = Instrument ''ORCL'' ''USD'', b_dateTime = 5, b_open = PyInt 2,
                 b_close = PyInt 4, b_high = PyInt 6, b_low = PyInt 1, b_volume = PyInt 10,
                 b_adjClose = Some (PyInt 3), b_frequency = DAY,
                 b_useAdjustedValue = True, b_extra = [] \<rparr>" True "[]"]
  by (simp add: getUseAdjValue_def getAdjClose_def)

text \<open>
  C9 as the specification states it asks getTypicalPrice() to return a value for every
  bar. A bar whose four prices are the int 2^1024 passes the constructor; the sum of its
  high, low and close is an int too large for a float, and the division by 3.0 raises
  \<^verbatim>\<open>OverflowError\<close>.
\<close>

theorem C9_typical_overflow_counterexample:
  "BasicBar_init (Instrument ''ORCL'' ''USD'') 5 (PyInt (2 ^ 1024)) (PyInt (2 ^ 1024)) (PyInt (2 ^ 1024)) (PyInt (2 ^ 1024))
       (PyInt 10) (Some (PyInt 1)) DAY [] =
     Inr \<lparr> b_instrument = Instrument ''ORCL'' ''USD'', b_dateTime = 5, b_open = PyInt (2 ^ 1024),
            b_close = PyInt (2 ^ 1024), b_high = PyInt (2 ^ 1024), b_low = PyInt (2 ^ 1024), b_volume = PyInt 10,
            b_adjClose = Some (PyInt 1), b_frequency = DAY,
            b_useAdjustedValue = False, b_extra = [] \<rparr>
   \<and> getTypicalPrice \<lparr> b_instrument = Instrument ''ORCL'' ''USD'', b_dateTime = 5, b_open = PyInt (2 ^ 1024),
            b_close = PyInt (2 ^ 1024), b_high = PyInt (2 ^ 1024), b_low = PyInt (2 ^ 1024), b_volume = PyInt 10,
            b_adjClose = Some (PyInt 1), b_frequency = DAY,
            b_useAdjustedValue = False, b_extra = [] \<rparr> = Inl OverflowError"
proof -
  have big: "round_double (2 ^ 1024 + 2 ^ 1024 + 2 ^ 1024) = PosInf"
    by (rule round_double_overflow) simp
  have "py_float (PyInt (2 ^ 1024 + 2 ^ 1024 + 2 ^ 1024)) = Inl OverflowError"
    using big by simp
  then have "getTypicalPrice \<lparr> b_instrument = Instrument ''ORCL'' ''USD'', b_dateTime = 5, b_open = PyInt (2 ^ 1024),
            b_close = PyInt (2 ^ 1024), b_high = PyInt (2 ^ 1024), b_low = PyInt (2 ^ 1024), b_volume = PyInt 10,
            b_adjClose = Some (PyInt 1), b_frequency = DAY,
            b_useAdjustedValue = False, b_extra = [] \<rparr> = Inl OverflowError"
    by (simp add: getTypicalPrice_def getHigh_def getLow_def getClose_def
          cong: sum.case_cong)
  then show ?thesis
    by (simp add: BasicBar_init_def build_instrument_def py_lt_def py_gt_def)
qed

text \<open>
  C9, amended. getTypicalPrice evaluates (high + low + close) / 3.0 on the raw high, low
  and close in Python's arithmetic: for float prices it returns exactly the double
  (high + low + close) / 3.0 (each sum and the quotient rounded to the nearest double) and
  never raises; with int prices it can raise OverflowError. Neither the toggle nor any
  sequence of setUseAdjustedValue calls changes the outcome.
\<close>

theorem C9_typical_price_raw:
  "getTypicalPrice self = spec_typical (b_high self) (b_low self) (b_close self)
   \<and> spec_typical (PyFloat h) (PyFloat l) (PyFloat c) =
        Inr (PyFloat (fl_div (fl_add (fl_add h l) c) (Finite 3)))
   \<and> getTypicalPrice (self\<lparr>b_useAdjustedValue := u\<rparr>) = getTypicalPrice self
   \<and> getTypicalPrice (setUseAdjustedValue_calls us self) = getTypicalPrice self"
proof -
  have "(setUseAdjustedValue_calls us self)\<lparr>b_useAdjustedValue := True\<rparr> =
          self\<lparr>b_useAdjustedValue := True\<rparr>"
    by (rule setUseAdjustedValue_calls_frame)
  then have "b_high (setUseAdjustedValue_calls us self) = b_high self
           \<and> b_low (setUseAdjustedValue_calls us self) = b_low self
           \<and> b_close (setUseAdjustedValue_calls us self) = b_close self"
    by (metis BasicBar.select_convs(4,5,6) BasicBar.surjective BasicBar.update_convs(10))
  then show ?thesis
    by (simp add: getTypicalPrice_def getHigh_def getLow_def getClose_def spec_typical_def
          cong: sum.case_cong)
qed

theorem C9_typical_price_raw_witness:
  "getTypicalPrice \<lparr> b_instrument = Instrument ''ORCL'' ''USD'', b_dateTime = 5, b_open = PyInt 2,
            b_close = PyInt 4, b_high = PyInt 6, b_low = PyInt 1, b_volume = PyInt 10,
            b_adjClose = Some (PyInt 3), b_frequency = DAY,
            b_useAdjustedValue = False, b_extra = [] \<rparr> =
     Inr (PyFloat (Finite (8256599316845909 / 2251799813685248)))
   \<and> getTypicalPrice \<lparr> b_instrument = Instrument ''ORCL'' ''USD'', b_dateTime = 5, b_open = PyInt 2,
            b_close = PyInt 4, b_high = PyInt 6, b_low = PyInt 1, b_volume = PyInt 10,
            b_adjClose = Some (PyInt 3), b_frequency = DAY,
            b_useAdjustedValue = True, b_extra = [] \<rparr> =
     Inr (PyFloat (Finite (8256599316845909 / 2251799813685248)))"
proof -
  have r11: "round_double 11 = Finite 11"
    by (subst round_double_at [of 3 _ 3 6192449487634432]) simp_all
  have r113: "round_double (11 / 3) = Finite (8256599316845909 / 2251799813685248)"
    by (subst round_double_at [of 1 _ 1 8256599316845909]) simp_all
  have v: "spec_typical (PyInt 6) (PyInt 1) (PyInt 4) =
             Inr (PyFloat (Finite (8256599316845909 / 2251799813685248)))"
    by (simp add: spec_typical_def r11 r113)
  from C9_typical_price_raw
         [of "\<lparr> b_instrument = Instrument ''ORCL'' ''USD'', b_dateTime = 5, b_open = PyInt 2,
            b_close = PyInt 4, b_high = PyInt 6, b_low = PyInt 1, b_volume = PyInt 10,
            b_adjClose = Some (PyInt 3), b_frequency = DAY,
            b_useAdjustedValue = False, b_extra = [] \<rparr>"]
       C9_typical_price_raw
         [of "\<lparr> b_instrument = Instrument ''ORCL'' ''USD'', b_dateTime = 5, b_open = PyInt 2,
            b_close = PyInt 4, b_high = PyInt 6, b_low = PyInt 1, b_volume = PyInt 10,
            b_adjClose = Some (PyInt 3), b_frequency = DAY,
            b_useAdjustedValue = True, b_extra = [] \<rparr>"]
       v
  show ?thesis by simp
qed

section \<open>Properties of Bars\<close>

text \<open>
  The loop of the constructor, entered with a first datetime and a dict whose keys are
  distinct: it ends normally when the bars left all have that datetime and bring
  instruments that are new and pairwise different, and raises otherwise.
\<close>

lemma Bars_loop_ok:
  "\<forall>b\<in>set bs. getDateTime b = t \<Longrightarrow> distinct (map fst d @ map getInstrument bs) \<Longrightarrow>
   Bars_loop (Some t) fi d bs = Inr (Some t, d @ map (\<lambda>b. (getInstrument b, b)) bs)"
proof (induction bs arbitrary: d)
  case Nil
  then show ?case by simp
next
  case (Cons cb rest)
  have fresh: "getInstrument cb \<notin> fst ` set d"
    using Cons.prems(2) by auto
  have "distinct (map fst (d @ [(getInstrument cb, cb)]) @ map getInstrument rest)"
    using Cons.prems(2) by auto
  with Cons.IH [of "d @ [(getInstrument cb, cb)]"] Cons.prems(1) fresh
  show ?case by simp
qed

lemma Bars_loop_fails:
  "(\<exists>b\<in>set bs. getDateTime b \<noteq> t) \<or> \<not> distinct (map fst d @ map getInstrument bs) \<Longrightarrow>
   distinct (map fst d) \<Longrightarrow>
   \<exists>e. Bars_loop (Some t) fi d bs = Inl e"
proof (induction bs arbitrary: d)
  case Nil
  then show ?case by simp
next
  case (Cons cb rest)
  show ?case
  proof (cases "getDateTime cb \<noteq> t \<or> getInstrument cb \<in> fst ` set d")
    case True
    then show ?thesis by auto
  next
    case False
    let ?d = "d @ [(getInstrument cb, cb)]"
    have d: "distinct (map fst ?d)"
      using False Cons.prems(2) by auto
    have "(\<exists>b\<in>set rest. getDateTime b \<noteq> t) \<or> \<not> distinct (map fst ?d @ map getInstrument rest)"
      using False Cons.prems(1) by auto
    from Cons.IH [OF this d] False show ?thesis by simp
  qed
qed

lemma Bars_init_Cons:
  "Bars_init (cb # rest) =
     (case Bars_loop (Some (getDateTime cb)) (Some (getInstrument cb)) [(getInstrument cb, cb)] rest of
        Inl e \<Rightarrow> Inl e
      | Inr (firstDateTime, d) \<Rightarrow> Inr \<lparr> barDict = d, bars_dateTime = firstDateTime \<rparr>)"
  by (simp add: Bars_init_def)

lemma Bars_init_ok:
  assumes "\<forall>b\<in>set rest. getDateTime b = getDateTime cb"
      and "distinct (map getInstrument (cb # rest))"
  shows "Bars_init (cb # rest) =
           Inr \<lparr> barDict = map (\<lambda>b. (getInstrument b, b)) (cb # rest),
                 bars_dateTime = Some (getDateTime cb) \<rparr>"
proof -
  have "distinct (map fst [(getInstrument cb, cb)] @ map getInstrument rest)"
    using assms(2) by simp
  from Bars_loop_ok [OF assms(1) this, of "Some (getInstrument cb)"]
  show ?thesis by (simp add: Bars_init_Cons)
qed

lemma Bars_init_fails:
  assumes "(\<exists>b\<in>set rest. getDateTime b \<noteq> getDateTime cb) \<or> \<not> distinct (map getInstrument (cb # rest))"
  shows "\<exists>e. Bars_init (cb # rest) = Inl e"
proof -
  have "(\<exists>b\<in>set rest. getDateTime b \<noteq> getDateTime cb)
        \<or> \<not> distinct (map fst [(getInstrument cb, cb)] @ map getInstrument rest)"
    using assms by simp
  from Bars_loop_fails [OF this, of "Some (getInstrument cb)"]
  obtain e where "Bars_loop (Some (getDateTime cb)) (Some (getInstrument cb)) [(getInstrument cb, cb)] rest = Inl e"
    by auto
  then show ?thesis by (simp add: Bars_init_Cons)
qed

lemma datetimes_differ_iff:
  "(\<exists>b1\<in>set (cb # rest). \<exists>b2\<in>set (cb # rest). getDateTime b1 \<noteq> getDateTime b2) =
   (\<exists>b\<in>set rest. getDateTime b \<noteq> getDateTime cb)"
  by (metis list.set_intros(1) list.set_intros(2) set_ConsD)

text \<open>
  C2. The construction of a Bars raises exactly when the list of bars is empty, or two
  bars of the list have different datetimes, or two bars of the list have the same
  instrument. For every non-empty list of bars with pairwise distinct instruments that
  share one datetime it succeeds, getDateTime returns that datetime and the group holds
  the bars given, in their order.
\<close>

theorem C2_Bars_init_raises_iff:
  "((\<exists>e. Bars_init bars = Inl e) =
      (bars = []
       \<or> (\<exists>b1\<in>set bars. \<exists>b2\<in>set bars. getDateTime b1 \<noteq> getDateTime b2)
       \<or> \<not> distinct (map getInstrument bars)))
   \<and> (bars \<noteq> [] \<and> distinct (map getInstrument bars) \<and> (\<forall>b\<in>set bars. getDateTime b = dt) \<longrightarrow>
        (\<exists>g. Bars_init bars = Inr g \<and> Bars_getDateTime g = Some dt \<and> Bars_iter g = bars))"
proof (cases bars)
  case Nil
  then show ?thesis by (simp add: Bars_init_def)
next
  case (Cons cb rest)
  show ?thesis
  proof (cases "(\<exists>b\<in>set rest. getDateTime b \<noteq> getDateTime cb)
                 \<or> \<not> distinct (map getInstrument (cb # rest))")
    case True
    from Bars_init_fails [OF True] obtain e where e: "Bars_init bars = Inl e"
      using Cons by auto
    have bad: "(\<exists>b1\<in>set bars. \<exists>b2\<in>set bars. getDateTime b1 \<noteq> getDateTime b2)
               \<or> \<not> distinct (map getInstrument bars)"
      using True datetimes_differ_iff [of cb rest] Cons by simp
    have first: "((\<exists>e. Bars_init bars = Inl e) =
      (bars = []
       \<or> (\<exists>b1\<in>set bars. \<exists>b2\<in>set bars. getDateTime b1 \<noteq> getDateTime b2)
       \<or> \<not> distinct (map getInstrument bars)))"
      using e bad by blast
    have second: "\<not> (bars \<noteq> [] \<and> distinct (map getInstrument bars) \<and> (\<forall>b\<in>set bars. getDateTime b = dt))"
      using bad by metis
    from first second show ?thesis by blast
  next
    case False
    then have same: "\<forall>b\<in>set rest. getDateTime b = getDateTime cb"
      and dist: "distinct (map getInstrument (cb # rest))" by blast+
    have r: "Bars_init bars =
           Inr \<lparr> barDict = map (\<lambda>b. (getInstrument b, b)) bars,
                 bars_dateTime = Some (getDateTime cb) \<rparr>"
      using Bars_init_ok [OF same dist] Cons by simp
    have good: "\<not> ((\<exists>b1\<in>set bars. \<exists>b2\<in>set bars. getDateTime b1 \<noteq> getDateTime b2)
               \<or> \<not> distinct (map getInstrument bars))"
      using False datetimes_differ_iff [of cb rest] Cons by simp
    have first: "((\<exists>e. Bars_init bars = Inl e) =
      (bars = []
       \<or> (\<exists>b1\<in>set bars. \<exists>b2\<in>set bars. getDateTime b1 \<noteq> getDateTime b2)
       \<or> \<not> distinct (map getInstrument bars)))"
    proof -
      have l: "\<not> (\<exists>e. Bars_init bars = Inl e)" using r by simp
      have ne: "bars \<noteq> []" using Cons by simp
      from l ne good show ?thesis by blast
    qed
    have it: "Bars_iter \<lparr> barDict = map (\<lambda>b. (getInstrument b, b)) bars,
                 bars_dateTime = Some (getDateTime cb) \<rparr> = bars"
      by (simp add: Bars_iter_def comp_def)
    have second: "(\<forall>b\<in>set bars. getDateTime b = dt) \<longrightarrow>
        (\<exists>g. Bars_init bars = Inr g \<and> Bars_getDateTime g = Some dt \<and> Bars_iter g = bars)"
    proof
      assume "\<forall>b\<in>set bars. getDateTime b = dt"
      then have "getDateTime cb = dt" using Cons by simp
      with r it show "\<exists>g. Bars_init bars = Inr g \<and> Bars_getDateTime g = Some dt \<and> Bars_iter g = bars"
        by (simp add: Bars_getDateTime_def)
    qed
    from first second show ?thesis by blast
  qed
qed

theorem C2_Bars_init_raises_iff_witness:
  "(\<exists>g. Bars_init
       [\<lparr> b_instrument = Instrument ''ORCL'' ''USD'', b_dateTime = 5, b_open = PyInt 2,
          b_close = PyInt 4, b_high = PyInt 6, b_low = PyInt 1, b_volume = PyInt 10,
          b_adjClose = Some (PyInt 3), b_frequency = DAY,
          b_useAdjustedValue = False, b_extra = [] \<rparr>,
        \<lparr> b_instrument = Instrument ''IBM'' ''USD'', b_dateTime = 5, b_open = PyInt 1,
          b_close = PyInt 1, b_high = PyInt 1, b_low = PyInt 1, b_volume = PyInt 7,
          b_adjClose = None, b_frequency = DAY,
          b_useAdjustedValue = False, b_extra = [] \<rparr>] = Inr g
      \<and> Bars_getDateTime g = Some 5
      \<and> Bars_iter g =
       [\<lparr> b_instrument = Instrument ''ORCL'' ''USD'', b_dateTime = 5, b_open = PyInt 2,
          b_close = PyInt 4, b_high = PyInt 6, b_low = PyInt 1, b_volume = PyInt 10,
          b_adjClose = Some (PyInt 3), b_frequency = DAY,
          b_useAdjustedValue = False, b_extra = [] \<rparr>,
        \<lparr> b_instrument = Instrument ''IBM'' ''USD'', b_dateTime = 5, b_open = PyInt 1,
          b_close = PyInt 1, b_high = PyInt 1, b_low = PyInt 1, b_volume = PyInt 7,
          b_adjClose = None, b_frequency = DAY,
          b_useAdjustedValue = False, b_extra = [] \<rparr>])
   \<and> (\<exists>e. Bars_init
       [\<lparr> b_instrument = Instrument ''ORCL'' ''USD'', b_dateTime = 5, b_open = PyInt 2,
          b_close = PyInt 4, b_high = PyInt 6, b_low = PyInt 1, b_volume = PyInt 10,
          b_adjClose = Some (PyInt 3), b_frequency = DAY,
          b_useAdjustedValue = False, b_extra = [] \<rparr>,
        \<lparr> b_instrument = Instrument ''ORCL'' ''USD'', b_dateTime = 5, b_open = PyInt 1,
          b_close = PyInt 1, b_high = PyInt 1, b_low = PyInt 1, b_volume = PyInt 7,
          b_adjClose = None, b_frequency = DAY,
          b_useAdjustedValue = False, b_extra = [] \<rparr>] = Inl e)"
  using C2_Bars_init_raises_iff
          [of "[\<lparr> b_instrument = Instrument ''ORCL'' ''USD'', b_dateTime = 5, b_open = PyInt 2,
                  b_close = PyInt 4, b_high = PyInt 6, b_low = PyInt 1, b_volume = PyInt 10,
                  b_adjClose = Some (PyInt 3), b_frequency = DAY,
                  b_useAdjustedValue = False, b_extra = [] \<rparr>,
                \<lparr> b_instrument = Instrument ''IBM'' ''USD'', b_dateTime = 5, b_open = PyInt 1,
                  b_close = PyInt 1, b_high = PyInt 1, b_low = PyInt 1, b_volume = PyInt 7,
                  b_adjClose = None, b_frequency = DAY,
                  b_useAdjustedValue = False, b_extra = [] \<rparr>]" 5]
        C2_Bars_init_raises_iff
          [of "[\<lparr> b_instrument = Instrument ''ORCL'' ''USD'', b_dateTime = 5, b_open = PyInt 2,
                  b_close = PyInt 4, b_high = PyInt 6, b_low = PyInt 1, b_volume = PyInt 10,
                  b_adjClose = Some (PyInt 3), b_frequency = DAY,
                  b_useAdjustedValue = False, b_extra = [] \<rparr>,
                \<lparr> b_instrument = Instrument ''ORCL'' ''USD'', b_dateTime = 5, b_open = PyInt 1,
                  b_close = PyInt 1, b_high = PyInt 1, b_low = PyInt 1, b_volume = PyInt 7,
                  b_adjClose = None, b_frequency = DAY,
                  b_useAdjustedValue = False, b_extra = [] \<rparr>]" 5]
  by (simp add: getDateTime_def getInstrument_def)

text \<open>
  What a successful construction says about its input and its dict.
\<close>

lemma Bars_init_Inr:
  assumes "Bars_init bs = Inr g"
  shows "bs \<noteq> [] \<and> distinct (map getInstrument bs)
         \<and> barDict g = map (\<lambda>b. (getInstrument b, b)) bs"
proof (cases bs)
  case Nil
  with assms show ?thesis by (simp add: Bars_init_def)
next
  case (Cons cb rest)
  have ok: "\<not> ((\<exists>b\<in>set rest. getDateTime b \<noteq> getDateTime cb)
              \<or> \<not> distinct (map getInstrument (cb # rest)))"
  proof
    assume "(\<exists>b\<in>set rest. getDateTime b \<noteq> getDateTime cb)
              \<or> \<not> distinct (map getInstrument (cb # rest))"
    from Bars_init_fails [OF this] assms Cons show False by simp
  qed
  then have same: "\<forall>b\<in>set rest. getDateTime b = getDateTime cb"
    and dist: "distinct (map getInstrument (cb # rest))" by blast+
  from Bars_init_ok [OF same dist] assms Cons
  have "g = \<lparr> barDict = map (\<lambda>b. (getInstrument b, b)) bs,
               bars_dateTime = Some (getDateTime cb) \<rparr>" by simp
  then have "barDict g = map (\<lambda>b. (getInstrument b, b)) bs" by simp
  with dist Cons show ?thesis by simp
qed

section \<open>Properties of the bar feeds\<close>

text \<open>
  The loop of \<^verbatim>\<open>_getNextValues\<close> over a group whose bars have distinct instruments: an
  instrument of the group gets the group's bar, every other entry of the cache stays.
\<close>

lemma fold_lastBar_notin:
  "i \<notin> getInstrument ` set bs \<Longrightarrow>
   fold (\<lambda>new_bar m. m(getInstrument new_bar \<mapsto> new_bar)) bs m i = m i"
  by (induction bs arbitrary: m) auto

lemma fold_lastBar_in:
  "distinct (map getInstrument bs) \<Longrightarrow> b \<in> set bs \<Longrightarrow>
   fold (\<lambda>new_bar m. m(getInstrument new_bar \<mapsto> new_bar)) bs m (getInstrument b) = Some b"
proof (induction bs arbitrary: m)
  case Nil
  then show ?case by simp
next
  case (Cons x xs)
  show ?case
  proof (cases "b = x")
    case True
    have "getInstrument x \<notin> getInstrument ` set xs" using Cons.prems(1) by simp
    then have "fold (\<lambda>new_bar m. m(getInstrument new_bar \<mapsto> new_bar)) xs
                 (m(getInstrument x \<mapsto> x)) (getInstrument x) =
               (m(getInstrument x \<mapsto> x)) (getInstrument x)"
      by (rule fold_lastBar_notin)
    with True show ?thesis by (simp del: fun_upd_apply add: fun_upd_same)
  next
    case False
    with Cons show ?thesis by simp
  qed
qed

lemma map_of_bars_in:
  "distinct (map getInstrument bs) \<Longrightarrow> b \<in> set bs \<Longrightarrow>
   map_of (map (\<lambda>b. (getInstrument b, b)) bs) (getInstrument b) = Some b"
  by (induction bs) (auto simp: image_iff)

lemma fold_lastBar:
  assumes "distinct (map getInstrument bs)"
  shows "fold (\<lambda>new_bar m. m(getInstrument new_bar \<mapsto> new_bar)) bs m i =
           (if i \<in> getInstrument ` set bs
            then map_of (map (\<lambda>b. (getInstrument b, b)) bs) i else m i)"
proof (cases "i \<in> getInstrument ` set bs")
  case True
  then obtain b where b: "b \<in> set bs" "i = getInstrument b" by blast
  from fold_lastBar_in [OF assms b(1)] map_of_bars_in [OF assms b(1)] b(2) True
  show ?thesis by simp
next
  case False
  from fold_lastBar_notin [OF False] False show ?thesis by simp
qed


text \<open>
  C8. The Frequency constants satisfy TRADE < SECOND < MINUTE < HOUR < DAY < WEEK < MONTH
  with TRADE negative; isIntraday of a feed is the comparison of its frequency with DAY,
  true for TRADE, SECOND, MINUTE and HOUR and false for DAY, WEEK and MONTH.
\<close>

theorem C8_frequency_order_intraday:
  "TRADE < SECOND \<and> SECOND < MINUTE \<and> MINUTE < HOUR \<and> HOUR < DAY \<and> DAY < WEEK
   \<and> WEEK < MONTH \<and> TRADE < 0
   \<and> isIntraday self = (getFrequency self < DAY)
   \<and> isIntraday (self\<lparr>f_frequency := TRADE\<rparr>)
   \<and> isIntraday (self\<lparr>f_frequency := SECOND\<rparr>)
   \<and> isIntraday (self\<lparr>f_frequency := MINUTE\<rparr>)
   \<and> isIntraday (self\<lparr>f_frequency := HOUR\<rparr>)
   \<and> \<not> isIntraday (self\<lparr>f_frequency := DAY\<rparr>)
   \<and> \<not> isIntraday (self\<lparr>f_frequency := WEEK\<rparr>)
   \<and> \<not> isIntraday (self\<lparr>f_frequency := MONTH\<rparr>)"
  by (simp add: isIntraday_def getFrequency_def TRADE_def SECOND_def MINUTE_def HOUR_def
        DAY_def WEEK_def MONTH_def)

text \<open>
  C5. setUseAdjustedValues(True) raises when barsHaveAdjClose() is false and leaves the
  feed as it was. When barsHaveAdjClose() is true, setUseAdjustedValues(b) succeeds,
  records b, sets b in every registered data series, and a data series created
  afterwards (by createDataSeries, hence by registerDataSeries for a new key) has b.
\<close>

theorem C5_setUseAdjustedValues:
  "(\<not> bhac self \<longrightarrow>
      setUseAdjustedValues bhac True self =
        (Some (Exception ''The barfeed doesn't support adjusted close values''), self))
   \<and> (bhac self \<longrightarrow>
      (\<exists>self'. setUseAdjustedValues bhac b self = (None, self')
         \<and> f_useAdjustedValues self' = b
         \<and> getAllDataSeries self' =
             map (BarDataSeries_setUseAdjustedValues b) (getAllDataSeries self)
         \<and> (\<forall>ds\<in>set (getAllDataSeries self'). ds_useAdjustedValues ds = b)
         \<and> ds_useAdjustedValues (createDataSeries key maxLen self') = b
         \<and> (key \<notin> fst ` set (f_ds self') \<longrightarrow>
              (\<exists>ds. getAllDataSeries (registerDataSeries key self') =
                      getAllDataSeries self' @ [ds] \<and> ds_useAdjustedValues ds = b))))"
  by (auto simp: setUseAdjustedValues_def getAllDataSeries_def createDataSeries_def
        BarDataSeries_setUseAdjustedValues_def BarDataSeries_init_def registerDataSeries_def
        comp_def case_prod_beta)

theorem C5_setUseAdjustedValues_witness:
  "setUseAdjustedValues barsHaveAdjClose True
      (OptimizerBarFeed_init DAY [Instrument ''ORCL'' ''USD'']
         [\<lparr> barDict = [(Instrument ''ORCL'' ''USD'',
             \<lparr> b_instrument = Instrument ''ORCL'' ''USD'', b_dateTime = 5, b_open = PyInt 2,
               b_close = PyInt 4, b_high = PyInt 6, b_low = PyInt 1, b_volume = PyInt 10,
               b_adjClose = None, b_frequency = DAY,
               b_useAdjustedValue = False, b_extra = [] \<rparr>)],
          bars_dateTime = Some 5 \<rparr>] None) =
     (Some (Exception ''The barfeed doesn't support adjusted close values''),
      (OptimizerBarFeed_init DAY [Instrument ''ORCL'' ''USD'']
         [\<lparr> barDict = [(Instrument ''ORCL'' ''USD'',
             \<lparr> b_instrument = Instrument ''ORCL'' ''USD'', b_dateTime = 5, b_open = PyInt 2,
               b_close = PyInt 4, b_high = PyInt 6, b_low = PyInt 1, b_volume = PyInt 10,
               b_adjClose = None, b_frequency = DAY,
               b_useAdjustedValue = False, b_extra = [] \<rparr>)],
          bars_dateTime = Some 5 \<rparr>] None))
   \<and> (\<exists>self'. setUseAdjustedValues barsHaveAdjClose True
      (OptimizerBarFeed_init DAY [Instrument ''ORCL'' ''USD'']
         [\<lparr> barDict = [(Instrument ''ORCL'' ''USD'',
             \<lparr> b_instrument = Instrument ''ORCL'' ''USD'', b_dateTime = 5, b_open = PyInt 2,
               b_close = PyInt 4, b_high = PyInt 6, b_low = PyInt 1, b_volume = PyInt 10,
               b_adjClose = Some (PyInt 3), b_frequency = DAY,
               b_useAdjustedValue = False, b_extra = [] \<rparr>)],
          bars_dateTime = Some 5 \<rparr>] None) = (None, self')
         \<and> f_useAdjustedValues self' = True
         \<and> getAllDataSeries self' =
             [\<lparr> ds_key = Instrument ''ORCL'' ''USD'', ds_maxLen = None,
                 ds_useAdjustedValues = True \<rparr>]
         \<and> ds_useAdjustedValues (createDataSeries (Instrument ''IBM'' ''USD'') None self'))"
proof -
  have no: "\<not> barsHaveAdjClose
      (OptimizerBarFeed_init DAY [Instrument ''ORCL'' ''USD'']
         [\<lparr> barDict = [(Instrument ''ORCL'' ''USD'',
             \<lparr> b_instrument = Instrument ''ORCL'' ''USD'', b_dateTime = 5, b_open = PyInt 2,
               b_close = PyInt 4, b_high = PyInt 6, b_low = PyInt 1, b_volume = PyInt 10,
               b_adjClose = None, b_frequency = DAY,
               b_useAdjustedValue = False, b_extra = [] \<rparr>)],
          bars_dateTime = Some 5 \<rparr>] None)"
    by (simp add: barsHaveAdjClose_def OptimizerBarFeed_init_def check_barsHaveAdjClose_def
          Bars_iter_def getAdjClose_def)
  have yes: "barsHaveAdjClose
      (OptimizerBarFeed_init DAY [Instrument ''ORCL'' ''USD'']
         [\<lparr> barDict = [(Instrument ''ORCL'' ''USD'',
             \<lparr> b_instrument = Instrument ''ORCL'' ''USD'', b_dateTime = 5, b_open = PyInt 2,
               b_close = PyInt 4, b_high = PyInt 6, b_low = PyInt 1, b_volume = PyInt 10,
               b_adjClose = Some (PyInt 3), b_frequency = DAY,
               b_useAdjustedValue = False, b_extra = [] \<rparr>)],
          bars_dateTime = Some 5 \<rparr>] None)"
    by (simp add: barsHaveAdjClose_def OptimizerBarFeed_init_def check_barsHaveAdjClose_def
          Bars_iter_def getAdjClose_def)
  have ds: "getAllDataSeries
      (OptimizerBarFeed_init DAY [Instrument ''ORCL'' ''USD'']
         [\<lparr> barDict = [(Instrument ''ORCL'' ''USD'',
             \<lparr> b_instrument = Instrument ''ORCL'' ''USD'', b_dateTime = 5, b_open = PyInt 2,
               b_close = PyInt 4, b_high = PyInt 6, b_low = PyInt 1, b_volume = PyInt 10,
               b_adjClose = Some (PyInt 3), b_frequency = DAY,
               b_useAdjustedValue = False, b_extra = [] \<rparr>)],
          bars_dateTime = Some 5 \<rparr>] None) =
      [\<lparr> ds_key = Instrument ''ORCL'' ''USD'', ds_maxLen = None,
          ds_useAdjustedValues = False \<rparr>]"
    by (simp add: getAllDataSeries_def OptimizerBarFeed_init_def registerDataSeries_def
          createDataSeries_def BarDataSeries_init_def BarDataSeries_setUseAdjustedValues_def
          build_instrument_def)
  from C5_setUseAdjustedValues [of barsHaveAdjClose
      "(OptimizerBarFeed_init DAY [Instrument ''ORCL'' ''USD'']
         [\<lparr> barDict = [(Instrument ''ORCL'' ''USD'',
             \<lparr> b_instrument = Instrument ''ORCL'' ''USD'', b_dateTime = 5, b_open = PyInt 2,
               b_close = PyInt 4, b_high = PyInt 6, b_low = PyInt 1, b_volume = PyInt 10,
               b_adjClose = None, b_frequency = DAY,
               b_useAdjustedValue = False, b_extra = [] \<rparr>)],
          bars_dateTime = Some 5 \<rparr>] None)" True "Instrument ''IBM'' ''USD''" None] no
  have first: "setUseAdjustedValues barsHaveAdjClose True
      (OptimizerBarFeed_init DAY [Instrument ''ORCL'' ''USD'']
         [\<lparr> barDict = [(Instrument ''ORCL'' ''USD'',
             \<lparr> b_instrument = Instrument ''ORCL'' ''USD'', b_dateTime = 5, b_open = PyInt 2,
               b_close = PyInt 4, b_high = PyInt 6, b_low = PyInt 1, b_volume = PyInt 10,
               b_adjClose = None, b_frequency = DAY,
               b_useAdjustedValue = False, b_extra = [] \<rparr>)],
          bars_dateTime = Some 5 \<rparr>] None) =
     (Some (Exception ''The barfeed doesn't support adjusted close values''),
      (OptimizerBarFeed_init DAY [Instrument ''ORCL'' ''USD'']
         [\<lparr> barDict = [(Instrument ''ORCL'' ''USD'',
             \<lparr> b_instrument = Instrument ''ORCL'' ''USD'', b_dateTime = 5, b_open = PyInt 2,
               b_close = PyInt 4, b_high = PyInt 6, b_low = PyInt 1, b_volume = PyInt 10,
               b_adjClose = None, b_frequency = DAY,
               b_useAdjustedValue = False, b_extra = [] \<rparr>)],
          bars_dateTime = Some 5 \<rparr>] None))"
    by blast
  from C5_setUseAdjustedValues [of barsHaveAdjClose
      "(OptimizerBarFeed_init DAY [Instrument ''ORCL'' ''USD'']
         [\<lparr> barDict = [(Instrument ''ORCL'' ''USD'',
             \<lparr> b_instrument = Instrument ''ORCL'' ''USD'', b_dateTime = 5, b_open = PyInt 2,
               b_close = PyInt 4, b_high = PyInt 6, b_low = PyInt 1, b_volume = PyInt 10,
               b_adjClose = Some (PyInt 3), b_frequency = DAY,
               b_useAdjustedValue = False, b_extra = [] \<rparr>)],
          bars_dateTime = Some 5 \<rparr>] None)" True "Instrument ''IBM'' ''USD''" None] yes
  obtain self' where s: "setUseAdjustedValues barsHaveAdjClose True
      (OptimizerBarFeed_init DAY [Instrument ''ORCL'' ''USD'']
         [\<lparr> barDict = [(Instrument ''ORCL'' ''USD'',
             \<lparr> b_instrument = Instrument ''ORCL'' ''USD'', b_dateTime = 5, b_open = PyInt 2,
               b_close = PyInt 4, b_high = PyInt 6, b_low = PyInt 1, b_volume = PyInt 10,
               b_adjClose = Some (PyInt 3), b_frequency = DAY,
               b_useAdjustedValue = False, b_extra = [] \<rparr>)],
          bars_dateTime = Some 5 \<rparr>] None) = (None, self')"
    "f_useAdjustedValues self' = True"
    "getAllDataSeries self' = map (BarDataSeries_setUseAdjustedValues True) (getAllDataSeries
      (OptimizerBarFeed_init DAY [Instrument ''ORCL'' ''USD'']
         [\<lparr> barDict = [(Instrument ''ORCL'' ''USD'',
             \<lparr> b_instrument = Instrument ''ORCL'' ''USD'', b_dateTime = 5, b_open = PyInt 2,
               b_close = PyInt 4, b_high = PyInt 6, b_low = PyInt 1, b_volume = PyInt 10,
               b_adjClose = Some (PyInt 3), b_frequency = DAY,
               b_useAdjustedValue = False, b_extra = [] \<rparr>)],
          bars_dateTime = Some 5 \<rparr>] None))"
    "ds_useAdjustedValues (createDataSeries (Instrument ''IBM'' ''USD'') None self')"
    by auto
  from s(3) ds have "getAllDataSeries self' =
             [\<lparr> ds_key = Instrument ''ORCL'' ''USD'', ds_maxLen = None,
                 ds_useAdjustedValues = True \<rparr>]"
    by (simp add: BarDataSeries_setUseAdjustedValues_def)
  with first s show ?thesis by blast
qed

text \<open>
  C6. One step \<^verbatim>\<open>_getNextValues\<close> of a feed whose \<^verbatim>\<open>getNextBars\<close> leaves the two private
  fields of the base class alone. When getNextBars yields a group (built by the Bars
  constructor), the step returns the datetime of the group and the group, and after it
  getCurrentBars returns the group, getLastBar returns the group's bar for every
  instrument of the group and what it returned before for every other instrument. When
  getNextBars yields none, the step returns (none, none), and getCurrentBars and
  getLastBar return what they returned before.
\<close>

theorem C6_getNextValues_cache:
  assumes "gnb self = (r, self1)"
      and "f_lastBars self1 = f_lastBars self"
      and "f_lastBarByInstrument self1 = f_lastBarByInstrument self"
  shows "(r = None \<longrightarrow>
            getNextValues gnb self = ((None, None), self1)
          \<and> getCurrentBars self1 = getCurrentBars self
          \<and> (\<forall>i. getLastBar i self1 = getLastBar i self))
       \<and> (r = Some g \<and> Bars_init bs = Inr g \<longrightarrow>
            (\<exists>self'. getNextValues gnb self = ((Bars_getDateTime g, Some g), self')
               \<and> getCurrentBars self' = Some g
               \<and> (\<forall>i. getLastBar i self' =
                      (if Bars_contains i g then Bars_getBar i g else getLastBar i self))
               \<and> (\<forall>b\<in>set bs. getLastBar (getInstrument b) self' = Some b)))"
proof (intro conjI impI)
  assume "r = None"
  with assms show "getNextValues gnb self = ((None, None), self1)"
    by (simp add: getNextValues_def)
next
  assume "r = None"
  from assms(2) show "getCurrentBars self1 = getCurrentBars self"
    by (simp add: getCurrentBars_def)
next
  assume "r = None"
  from assms(3) show "\<forall>i. getLastBar i self1 = getLastBar i self"
    by (simp add: getLastBar_def)
next
  assume a: "r = Some g \<and> Bars_init bs = Inr g"
  let ?f = "\<lambda>new_bar m. m(getInstrument new_bar \<mapsto> new_bar)"
  let ?self' = "self1\<lparr> f_lastBarByInstrument := fold ?f (Bars_iter g) (f_lastBarByInstrument self1),
                        f_lastBars := Some g \<rparr>"
  from a Bars_init_Inr [of bs g]
  have dist: "distinct (map getInstrument bs)"
    and dict: "barDict g = map (\<lambda>b. (getInstrument b, b)) bs" by simp_all
  have iter: "Bars_iter g = bs" using dict by (simp add: Bars_iter_def comp_def)
  have keys: "fst ` set (barDict g) = getInstrument ` set bs"
    using dict by (simp add: image_image)
  have step: "getNextValues gnb self = ((Bars_getDateTime g, Some g), ?self')"
    using assms(1) a by (simp add: getNextValues_def)
  have cur: "getCurrentBars ?self' = Some g" by (simp add: getCurrentBars_def)
  have cache: "getLastBar i ?self' =
                 (if Bars_contains i g then Bars_getBar i g else getLastBar i self)" for i
    using fold_lastBar [OF dist, of "f_lastBarByInstrument self" i] assms(3) iter keys dict
    by (simp add: getLastBar_def Bars_contains_def Bars_getBar_def build_instrument_def)
  have each: "\<forall>b\<in>set bs. getLastBar (getInstrument b) ?self' = Some b"
  proof
    fix b assume "b \<in> set bs"
    from fold_lastBar_in [OF dist this, of "f_lastBarByInstrument self1"] iter
    show "getLastBar (getInstrument b) ?self' = Some b"
      by (simp add: getLastBar_def build_instrument_def)
  qed
  from step cur cache each
  show "\<exists>self'. getNextValues gnb self = ((Bars_getDateTime g, Some g), self')
               \<and> getCurrentBars self' = Some g
               \<and> (\<forall>i. getLastBar i self' =
                      (if Bars_contains i g then Bars_getBar i g else getLastBar i self))
               \<and> (\<forall>b\<in>set bs. getLastBar (getInstrument b) self' = Some b)"
    by blast
qed

theorem C6_getNextValues_cache_witness:
  "(\<exists>self'. getNextValues getNextBars
      (OptimizerBarFeed_init DAY [Instrument ''ORCL'' ''USD'']
         [\<lparr> barDict = [(Instrument ''ORCL'' ''USD'',
             \<lparr> b_instrument = Instrument ''ORCL'' ''USD'', b_dateTime = 5, b_open = PyInt 2,
               b_close = PyInt 4, b_high = PyInt 6, b_low = PyInt 1, b_volume = PyInt 10,
               b_adjClose = Some (PyInt 3), b_frequency = DAY,
               b_useAdjustedValue = False, b_extra = [] \<rparr>)],
          bars_dateTime = Some 5 \<rparr>] None) =
        ((Some 5, Some \<lparr> barDict = [(Instrument ''ORCL'' ''USD'',
             \<lparr> b_instrument = Instrument ''ORCL'' ''USD'', b_dateTime = 5, b_open = PyInt 2,
               b_close = PyInt 4, b_high = PyInt 6, b_low = PyInt 1, b_volume = PyInt 10,
               b_adjClose = Some (PyInt 3), b_frequency = DAY,
               b_useAdjustedValue = False, b_extra = [] \<rparr>)],
          bars_dateTime = Some 5 \<rparr>),
         self')
      \<and> getCurrentBars self' = Some \<lparr> barDict = [(Instrument ''ORCL'' ''USD'',
             \<lparr> b_instrument = Instrument ''ORCL'' ''USD'', b_dateTime = 5, b_open = PyInt 2,
               b_close = PyInt 4, b_high = PyInt 6, b_low = PyInt 1, b_volume = PyInt 10,
               b_adjClose = Some (PyInt 3), b_frequency = DAY,
               b_useAdjustedValue = False, b_extra = [] \<rparr>)],
          bars_dateTime = Some 5 \<rparr>
      \<and> getLastBar (Instrument ''ORCL'' ''USD'') self' =
          Some \<lparr> b_instrument = Instrument ''ORCL'' ''USD'', b_dateTime = 5, b_open = PyInt 2,
          b_close = PyInt 4, b_high = PyInt 6, b_low = PyInt 1, b_volume = PyInt 10,
          b_adjClose = Some (PyInt 3), b_frequency = DAY,
          b_useAdjustedValue = False, b_extra = [] \<rparr>)
   \<and> getNextValues getNextBars
      (OptimizerBarFeed_init DAY [Instrument ''ORCL'' ''USD'']
         [] None) =
        ((None, None),
      (OptimizerBarFeed_init DAY [Instrument ''ORCL'' ''USD'']
         [] None))"
proof -
  let ?bar = "\<lparr> b_instrument = Instrument ''ORCL'' ''USD'', b_dateTime = 5, b_open = PyInt 2,
          b_close = PyInt 4, b_high = PyInt 6, b_low = PyInt 1, b_volume = PyInt 10,
          b_adjClose = Some (PyInt 3), b_frequency = DAY,
          b_useAdjustedValue = False, b_extra = [] \<rparr>"
  let ?g = "\<lparr> barDict = [(Instrument ''ORCL'' ''USD'',
             \<lparr> b_instrument = Instrument ''ORCL'' ''USD'', b_dateTime = 5, b_open = PyInt 2,
               b_close = PyInt 4, b_high = PyInt 6, b_low = PyInt 1, b_volume = PyInt 10,
               b_adjClose = Some (PyInt 3), b_frequency = DAY,
               b_useAdjustedValue = False, b_extra = [] \<rparr>)],
          bars_dateTime = Some 5 \<rparr>"
  let ?F = "(OptimizerBarFeed_init DAY [Instrument ''ORCL'' ''USD'']
         [\<lparr> barDict = [(Instrument ''ORCL'' ''USD'',
             \<lparr> b_instrument = Instrument ''ORCL'' ''USD'', b_dateTime = 5, b_open = PyInt 2,
               b_close = PyInt 4, b_high = PyInt 6, b_low = PyInt 1, b_volume = PyInt 10,
               b_adjClose = Some (PyInt 3), b_frequency = DAY,
               b_useAdjustedValue = False, b_extra = [] \<rparr>)],
          bars_dateTime = Some 5 \<rparr>] None)"
  let ?E = "(OptimizerBarFeed_init DAY [Instrument ''ORCL'' ''USD'']
         [] None)"
  have bars: "o_bars ?F = [?g]"
    by (simp add: OptimizerBarFeed_init_def)
  have pos: "o_nextPos ?F = 0"
    by (simp add: OptimizerBarFeed_init_def)
  have bars0: "o_bars ?E = []"
    by (simp add: OptimizerBarFeed_init_def)
  have p1: "getNextBars ?F = (Some ?g, snd (getNextBars ?F))"
    using bars pos by (simp add: getNextBars_def Let_def)
  have p2: "f_lastBars (snd (getNextBars ?F)) = f_lastBars ?F"
    using bars pos by (simp add: getNextBars_def Let_def)
  have p3: "f_lastBarByInstrument (snd (getNextBars ?F)) = f_lastBarByInstrument ?F"
    using bars pos by (simp add: getNextBars_def Let_def)
  have q1: "getNextBars ?E = (None, ?E)"
    using bars0 by (simp add: getNextBars_def)
  have init: "Bars_init [?bar] = Inr ?g"
    by (simp add: Bars_init_def getDateTime_def getInstrument_def)
  have dt: "Bars_getDateTime ?g = Some 5"
    by (simp add: Bars_getDateTime_def)
  have inst: "getInstrument ?bar = Instrument ''ORCL'' ''USD''"
    by (simp add: getInstrument_def)
  from C6_getNextValues_cache
         [of getNextBars ?F "Some ?g" "snd (getNextBars ?F)" ?g "[?bar]", OF p1 p2 p3] init
  obtain self' where s: "getNextValues getNextBars ?F = ((Bars_getDateTime ?g, Some ?g), self')"
    "getCurrentBars self' = Some ?g"
    "\<forall>b\<in>set [?bar]. getLastBar (getInstrument b) self' = Some b"
    by blast
  from s(3) inst have last: "getLastBar (Instrument ''ORCL'' ''USD'') self' = Some ?bar"
    by simp
  from C6_getNextValues_cache [of getNextBars ?E None ?E ?g "[?bar]", OF q1 refl refl]
  have none: "getNextValues getNextBars ?E = ((None, None), ?E)"
    by blast
  from s(1) s(2) last none dt show ?thesis by simp
qed

text \<open>
  C10. barsHaveAdjClose of an OptimizerBarFeed is false when the feed is built from an
  empty list of groups; otherwise it says whether the first bar of the first group has a
  non-null adjusted close, whatever the other bars of that group and the other groups
  are.
\<close>

theorem C10_barsHaveAdjClose_first_bar:
  "barsHaveAdjClose (OptimizerBarFeed_init frequency instruments [] maxLen) = False
   \<and> (Bars_init (b # bs) = Inr g \<longrightarrow>
        barsHaveAdjClose (OptimizerBarFeed_init frequency instruments (g # gs) maxLen) =
          (getAdjClose b \<noteq> None))"
proof -
  have "Bars_init (b # bs) = Inr g \<Longrightarrow> Bars_iter g = b # bs"
    using Bars_init_Inr [of "b # bs" g] by (simp add: Bars_iter_def comp_def)
  then show ?thesis
    by (auto simp: barsHaveAdjClose_def OptimizerBarFeed_init_def Let_def
          check_barsHaveAdjClose_def)
qed

theorem C10_barsHaveAdjClose_first_bar_witness:
  "barsHaveAdjClose
      (OptimizerBarFeed_init DAY [Instrument ''ORCL'' ''USD'']
         [\<lparr> barDict = [(Instrument ''ORCL'' ''USD'',
             \<lparr> b_instrument = Instrument ''ORCL'' ''USD'', b_dateTime = 5, b_open = PyInt 2,
               b_close = PyInt 4, b_high = PyInt 6, b_low = PyInt 1, b_volume = PyInt 10,
               b_adjClose = Some (PyInt 3), b_frequency = DAY,
               b_useAdjustedValue = False, b_extra = [] \<rparr>)],
          bars_dateTime = Some 5 \<rparr>,
          \<lparr> barDict = [(Instrument ''ORCL'' ''USD'',
             \<lparr> b_instrument = Instrument ''ORCL'' ''USD'', b_dateTime = 5, b_open = PyInt 2,
               b_close = PyInt 4, b_high = PyInt 6, b_low = PyInt 1, b_volume = PyInt 10,
               b_adjClose = None, b_frequency = DAY,
               b_useAdjustedValue = False, b_extra = [] \<rparr>)],
          bars_dateTime = Some 5 \<rparr>] None)
   \<and> \<not> barsHaveAdjClose (OptimizerBarFeed_init DAY [Instrument ''ORCL'' ''USD''] [] None)"
proof -
  have init: "Bars_init [\<lparr> b_instrument = Instrument ''ORCL'' ''USD'', b_dateTime = 5, b_open = PyInt 2,
          b_close = PyInt 4, b_high = PyInt 6, b_low = PyInt 1, b_volume = PyInt 10,
          b_adjClose = Some (PyInt 3), b_frequency = DAY,
          b_useAdjustedValue = False, b_extra = [] \<rparr>] =
      Inr \<lparr> barDict = [(Instrument ''ORCL'' ''USD'',
             \<lparr> b_instrument = Instrument ''ORCL'' ''USD'', b_dateTime = 5, b_open = PyInt 2,
               b_close = PyInt 4, b_high = PyInt 6, b_low = PyInt 1, b_volume = PyInt 10,
               b_adjClose = Some (PyInt 3), b_frequency = DAY,
               b_useAdjustedValue = False, b_extra = [] \<rparr>)],
          bars_dateTime = Some 5 \<rparr>"
    by (simp add: Bars_init_def getDateTime_def getInstrument_def)
  from C10_barsHaveAdjClose_first_bar [of DAY "[Instrument ''ORCL'' ''USD'']" None
      "\<lparr> b_instrument = Instrument ''ORCL'' ''USD'', b_dateTime = 5, b_open = PyInt 2,
          b_close = PyInt 4, b_high = PyInt 6, b_low = PyInt 1, b_volume = PyInt 10,
          b_adjClose = Some (PyInt 3), b_frequency = DAY,
          b_useAdjustedValue = False, b_extra = [] \<rparr>" "[]"
      "\<lparr> barDict = [(Instrument ''ORCL'' ''USD'',
             \<lparr> b_instrument = Instrument ''ORCL'' ''USD'', b_dateTime = 5, b_open = PyInt 2,
               b_close = PyInt 4, b_high = PyInt 6, b_low = PyInt 1, b_volume = PyInt 10,
               b_adjClose = Some (PyInt 3), b_frequency = DAY,
               b_useAdjustedValue = False, b_extra = [] \<rparr>)],
          bars_dateTime = Some 5 \<rparr>"
      "[\<lparr> barDict = [(Instrument ''ORCL'' ''USD'',
             \<lparr> b_instrument = Instrument ''ORCL'' ''USD'', b_dateTime = 5, b_open = PyInt 2,
               b_close = PyInt 4, b_high = PyInt 6, b_low = PyInt 1, b_volume = PyInt 10,
               b_adjClose = None, b_frequency = DAY,
               b_useAdjustedValue = False, b_extra = [] \<rparr>)],
          bars_dateTime = Some 5 \<rparr>]"] init
  show ?thesis by (simp add: getAdjClose_def)
qed

section \<open>Properties of the Dispatcher\<close>

lemma below_last:
  "sorted_wrt (<) xs \<Longrightarrow> x \<in> set xs \<Longrightarrow> x \<le> (last xs :: int)"
proof (induction xs)
  case Nil
  then show ?case by simp
next
  case (Cons a xs)
  show ?case
  proof (cases "xs = []")
    case True
    with Cons.prems show ?thesis by simp
  next
    case False
    then have l: "last xs \<in> set xs" by simp
    show ?thesis
    proof (cases "x = a")
      case True
      from Cons.prems(1) have "\<forall>y\<in>set xs. a < y" by simp
      with l have "a < last xs" by blast
      with True \<open>xs \<noteq> []\<close> show ?thesis by simp
    next
      case False
      with Cons.prems have "x \<in> set xs" by simp
      with Cons.IH Cons.prems(1) \<open>xs \<noteq> []\<close> show ?thesis by simp
    qed
  qed
qed

lemma sorted_wrt_snoc_last:
  assumes "sorted_wrt (<) xs" and "xs \<noteq> []" and "last xs < (t::int)"
  shows "sorted_wrt (<) (xs @ [t])"
proof -
  have "\<forall>x\<in>set xs. x \<le> last xs" using assms(1) by (simp add: below_last)
  with assms(3) have "\<forall>x\<in>set xs. x < t" by auto
  with assms(1) show ?thesis by (simp add: sorted_wrt_append)
qed

lemma Subject_dispatch_Inr:
  "Subject_dispatch s = Inr s' \<Longrightarrow>
     whole s' = whole s \<and> s_name s' = s_name s \<and> (ordered s \<longrightarrow> ordered s')"
  by (auto simp: Subject_dispatch_def whole_def ordered_def lastDispatched_def
        sorted_wrt_snoc_last split: list.splits option.splits if_splits)

lemma Subject_dispatch_Inl:
  "Subject_dispatch s = Inl e \<Longrightarrow>
     \<exists>p t rest. e = OrderingViolation (s_name s) p t \<and> t \<le> p
        \<and> s_dispatched s \<noteq> [] \<and> p = last (s_dispatched s) \<and> s_pending s = t # rest"
  by (auto simp: Subject_dispatch_def lastDispatched_def
        split: list.splits option.splits if_splits)

lemma Subject_dispatch_sorted:
  assumes "sorted_wrt (<) (whole s)"
  shows "\<exists>s'. Subject_dispatch s = Inr s'"
proof (cases "Subject_dispatch s")
  case (Inr s')
  then show ?thesis by simp
next
  case (Inl e)
  from Subject_dispatch_Inl [OF this] obtain p t rest where
    v: "t \<le> p" "s_dispatched s \<noteq> []" "p = last (s_dispatched s)" "s_pending s = t # rest"
    by blast
  have "p \<in> set (s_dispatched s)" using v(2,3) by simp
  moreover have "t \<in> set (s_pending s)" using v(4) by simp
  ultimately have "p < t" using assms by (auto simp: whole_def sorted_wrt_append)
  with v(1) show ?thesis by simp
qed

lemma Subject_dispatch_Inl_unsorted:
  assumes "Subject_dispatch s = Inl e"
  shows "\<not> sorted_wrt (<) (whole s)"
proof
  assume "sorted_wrt (<) (whole s)"
  from Subject_dispatch_sorted [OF this] assms show False by auto
qed

lemma dispatch_pass_Inr:
  "dispatch_pass t ss = Inr ss' \<Longrightarrow>
     map ident ss' = map ident ss
   \<and> ((\<forall>s\<in>set ss. ordered s) \<longrightarrow> (\<forall>s\<in>set ss'. ordered s))"
proof (induction ss arbitrary: ss')
  case Nil
  then show ?case by simp
next
  case (Cons s ss)
  from Cons.prems obtain s1 ss1 where
    r: "(if Subject_peekDateTime s = Some t then Subject_dispatch s else Inr s) = Inr s1"
       "dispatch_pass t ss = Inr ss1" "ss' = s1 # ss1"
    by (auto split: sum.splits)
  have s1: "ident s1 = ident s \<and> (ordered s \<longrightarrow> ordered s1)"
  proof (cases "Subject_peekDateTime s = Some t")
    case True
    with r(1) have "Subject_dispatch s = Inr s1" by simp
    from Subject_dispatch_Inr [OF this] show ?thesis by (simp add: ident_def)
  next
    case False
    with r(1) show ?thesis by simp
  qed
  from Cons.IH [OF r(2)] s1 r(3) show ?case by simp
qed

lemma dispatch_pass_Inl:
  "dispatch_pass t ss = Inl e \<Longrightarrow>
     \<exists>s\<in>set ss. \<exists>p u. e = OrderingViolation (s_name s) p u \<and> u \<le> p
        \<and> \<not> sorted_wrt (<) (whole s)"
proof (induction ss)
  case Nil
  then show ?case by simp
next
  case (Cons s ss)
  show ?case
  proof (cases "(if Subject_peekDateTime s = Some t then Subject_dispatch s else Inr s)")
    case (Inl e')
    then have d: "Subject_dispatch s = Inl e'" by (simp split: if_splits)
    from Inl Cons.prems have "e' = e" by simp
    with Subject_dispatch_Inl [OF d] Subject_dispatch_Inl_unsorted [OF d]
    show ?thesis by auto
  next
    case (Inr s1)
    with Cons.prems have "dispatch_pass t ss = Inl e" by (simp split: sum.splits)
    from Cons.IH [OF this] show ?thesis by auto
  qed
qed

lemma smallestDateTime_None:
  "smallestDateTime ss = None \<Longrightarrow> \<forall>s\<in>set ss. s_pending s = []"
  by (induction ss)
     (auto simp: Subject_peekDateTime_def split: option.splits list.splits)

lemma ident_transfer:
  assumes "map ident ss1 = map ident ss" and "s1 \<in> set ss1"
  shows "\<exists>s\<in>set ss. s_name s = s_name s1 \<and> whole s = whole s1"
proof -
  have "ident s1 \<in> set (map ident ss)" using assms by (metis image_eqI list.set_map)
  then show ?thesis by (auto simp: ident_def)
qed

lemma run_Inr:
  "run ss = Inr ss' \<Longrightarrow>
     map ident ss' = map ident ss
   \<and> (\<forall>s\<in>set ss'. s_pending s = [])
   \<and> ((\<forall>s\<in>set ss. ordered s) \<longrightarrow> (\<forall>s\<in>set ss'. ordered s))"
proof (induction ss rule: run.induct)
  case (1 ss)
  show ?case
  proof (cases "smallestDateTime ss")
    case None
    with "1.prems" have "ss' = ss" by (simp add: run.simps)
    with smallestDateTime_None [OF None] show ?thesis by simp
  next
    case (Some t)
    with "1.prems" obtain ss1 where
      r: "dispatch_pass t ss = Inr ss1" "run ss1 = Inr ss'"
      by (auto simp: run.simps [of ss] split: sum.splits)
    from "1.IH" [OF Some r(1) r(2)] dispatch_pass_Inr [OF r(1)]
    show ?thesis by simp
  qed
qed

lemma run_Inl:
  "run ss = Inl e \<Longrightarrow>
     \<exists>s\<in>set ss. \<exists>p u. e = OrderingViolation (s_name s) p u \<and> u \<le> p
        \<and> \<not> sorted_wrt (<) (whole s)"
proof (induction ss rule: run.induct)
  case (1 ss)
  show ?case
  proof (cases "smallestDateTime ss")
    case None
    with "1.prems" show ?thesis by (simp add: run.simps)
  next
    case (Some t)
    show ?thesis
    proof (cases "dispatch_pass t ss")
      case (Inl e')
      with Some "1.prems" have "e' = e" by (simp add: run.simps [of ss])
      with dispatch_pass_Inl [OF Inl] show ?thesis by simp
    next
      case (Inr ss1)
      with Some "1.prems" have "run ss1 = Inl e" by (simp add: run.simps [of ss])
      from "1.IH" [OF Some Inr this] obtain s1 p u where
        s1: "s1 \<in> set ss1" "e = OrderingViolation (s_name s1) p u" "u \<le> p"
            "\<not> sorted_wrt (<) (whole s1)" by blast
      from dispatch_pass_Inr [OF Inr] have "map ident ss1 = map ident ss" by simp
      from ident_transfer [OF this s1(1)] obtain s where
        "s \<in> set ss" "s_name s = s_name s1" "whole s = whole s1" by blast
      with s1 show ?thesis by metis
    qed
  qed
qed

text \<open>
  C3. For subjects registered with nothing dispatched yet: when the run of the
  Dispatcher ends normally, the timestamps dispatched for every subject are strictly
  increasing, and they are all the timestamps of the subject in its own order. When the
  timestamps of some subject are not strictly increasing, the run aborts with an
  ordering violation that names a subject whose timestamps are not strictly increasing
  and carries a timestamp equal to or earlier than the one dispatched before it. A
  subject whose next timestamp is equal to or earlier than the one dispatched before is
  not dispatched: the violation names it.
\<close>

theorem C3_dispatch_strictly_increasing:
  assumes "\<forall>s\<in>set ss. s_dispatched s = []"
  shows "(run ss = Inr ss' \<longrightarrow>
            (\<forall>s'\<in>set ss'. sorted_wrt (<) (s_dispatched s'))
          \<and> map s_dispatched ss' = map s_pending ss)
       \<and> ((\<exists>s\<in>set ss. \<not> sorted_wrt (<) (s_pending s)) \<longrightarrow>
            (\<exists>s\<in>set ss. \<exists>p t. run ss = Inl (OrderingViolation (s_name s) p t) \<and> t \<le> p
                \<and> \<not> sorted_wrt (<) (s_pending s)))
       \<and> ((\<forall>s\<in>set ss. sorted_wrt (<) (s_pending s)) \<longrightarrow> (\<exists>ss'. run ss = Inr ss'))
       \<and> (s_pending x = t # rest \<and> lastDispatched x = Some p \<and> t \<le> p \<longrightarrow>
            Subject_dispatch x = Inl (OrderingViolation (s_name x) p t))"
proof -
  have fresh: "whole s = s_pending s" "ordered s" if "s \<in> set ss" for s
    using that assms by (simp_all add: whole_def ordered_def)
  have success: "(\<forall>s'\<in>set ss1. sorted_wrt (<) (s_dispatched s'))
                 \<and> map s_dispatched ss1 = map s_pending ss
                 \<and> (\<forall>s\<in>set ss. sorted_wrt (<) (s_pending s))"
    if ok: "run ss = Inr ss1" for ss1
  proof -
    from run_Inr [OF ok] fresh(2)
    have id: "map ident ss1 = map ident ss"
      and fin: "\<forall>s\<in>set ss1. s_pending s = []"
      and ord: "\<forall>s\<in>set ss1. ordered s" by simp_all
    from ord have a: "\<forall>s'\<in>set ss1. sorted_wrt (<) (s_dispatched s')"
      by (simp add: ordered_def)
    have "map (snd \<circ> ident) ss1 = map (snd \<circ> ident) ss"
      using id by (metis map_map)
    then have "map whole ss1 = map whole ss"
      by (simp add: ident_def comp_def)
    moreover have "map whole ss1 = map s_dispatched ss1"
      using fin by (simp add: whole_def)
    moreover have "map whole ss = map s_pending ss"
      using fresh(1) by simp
    ultimately have b: "map s_dispatched ss1 = map s_pending ss" by simp
    have c: "\<forall>s\<in>set ss. sorted_wrt (<) (s_pending s)"
    proof
      fix s assume s: "s \<in> set ss"
      then have "s_pending s \<in> set (map s_pending ss)" by simp
      with b have "s_pending s \<in> set (map s_dispatched ss1)" by simp
      then obtain s1 where "s1 \<in> set ss1" "s_dispatched s1 = s_pending s" by auto
      with a show "sorted_wrt (<) (s_pending s)" by metis
    qed
    from a b c show ?thesis by simp
  qed
  have failure: "\<exists>s\<in>set ss. \<exists>p t. e = OrderingViolation (s_name s) p t \<and> t \<le> p
                   \<and> \<not> sorted_wrt (<) (s_pending s)"
    if bad: "run ss = Inl e" for e
  proof -
    from run_Inl [OF bad] obtain s p u where
      "s \<in> set ss" "e = OrderingViolation (s_name s) p u" "u \<le> p"
      "\<not> sorted_wrt (<) (whole s)" by blast
    with fresh(1) show ?thesis by auto
  qed
  show ?thesis
  proof (intro conjI impI)
    assume "run ss = Inr ss'"
    from success [OF this]
    show "\<forall>s'\<in>set ss'. sorted_wrt (<) (s_dispatched s')" by simp
  next
    assume "run ss = Inr ss'"
    from success [OF this]
    show "map s_dispatched ss' = map s_pending ss" by simp
  next
    assume bad: "\<exists>s\<in>set ss. \<not> sorted_wrt (<) (s_pending s)"
    show "\<exists>s\<in>set ss. \<exists>p t. run ss = Inl (OrderingViolation (s_name s) p t) \<and> t \<le> p
                \<and> \<not> sorted_wrt (<) (s_pending s)"
    proof (cases "run ss")
      case (Inl e)
      from failure [OF Inl] Inl show ?thesis by auto
    next
      case (Inr ss1)
      from success [OF Inr] bad show ?thesis by blast
    qed
  next
    assume good: "\<forall>s\<in>set ss. sorted_wrt (<) (s_pending s)"
    show "\<exists>ss'. run ss = Inr ss'"
    proof (cases "run ss")
      case (Inl e)
      from failure [OF Inl] good show ?thesis by blast
    next
      case (Inr ss1)
      then show ?thesis by simp
    qed
  next
    assume "s_pending x = t # rest \<and> lastDispatched x = Some p \<and> t \<le> p"
    then show "Subject_dispatch x = Inl (OrderingViolation (s_name x) p t)"
      by (simp add: Subject_dispatch_def)
  qed
qed

theorem C3_dispatch_strictly_increasing_witness:
  "(\<exists>p t. run [\<lparr> s_name = ''ORCL/USD'', s_priority = 0, s_pending = [2, 1],
                  s_dispatched = [] \<rparr>] = Inl (OrderingViolation ''ORCL/USD'' p t) \<and> t \<le> p)
   \<and> (\<exists>ss'. run [\<lparr> s_name = ''ORCL/USD'', s_priority = 0, s_pending = [1, 2],
                  s_dispatched = [] \<rparr>,
                \<lparr> s_name = ''broker'', s_priority = 1, s_pending = [1, 3],
                  s_dispatched = [] \<rparr>] = Inr ss'
         \<and> map s_dispatched ss' = [[1, 2], [1, 3]])"
proof -
  let ?a = "[\<lparr> s_name = ''ORCL/USD'', s_priority = 0, s_pending = [2, 1],
                  s_dispatched = [] \<rparr>]"
  let ?b = "[\<lparr> s_name = ''ORCL/USD'', s_priority = 0, s_pending = [1, 2],
                  s_dispatched = [] \<rparr>,
                \<lparr> s_name = ''broker'', s_priority = 1, s_pending = [1, 3],
                  s_dispatched = [] \<rparr>]"
  have fa: "\<forall>s\<in>set ?a. s_dispatched s = []" by simp
  have fb: "\<forall>s\<in>set ?b. s_dispatched s = []" by simp
  have bad: "\<exists>s\<in>set ?a. \<not> sorted_wrt (<) (s_pending s)" by simp
  have good: "\<forall>s\<in>set ?b. sorted_wrt (<) (s_pending s)" by simp
  from C3_dispatch_strictly_increasing [OF fa] bad
  have first: "\<exists>p t. run ?a = Inl (OrderingViolation ''ORCL/USD'' p t) \<and> t \<le> p"
    by fastforce
  from C3_dispatch_strictly_increasing [OF fb] good
  obtain ss' where r: "run ?b = Inr ss'" by blast
  with C3_dispatch_strictly_increasing [OF fb, of ss']
  have "map s_dispatched ss' = map s_pending ?b" by blast
  with r have "run ?b = Inr ss' \<and> map s_dispatched ss' = [[1, 2], [1, 3]]" by simp
  then have second: "\<exists>ss'. run ?b = Inr ss' \<and> map s_dispatched ss' = [[1, 2], [1, 3]]" ..
  from first second show ?thesis by (rule conjI)
qed

end
